theory Spec2Isabelle
  imports Complex_Main
begin

unbundle bit_operations_syntax

section \<open>The node model of cwjson.h\<close>

text \<open>
  Every JSON node is an object of a class derived from \<open>Value\<close>, allocated with
  \<open>new\<close> and addressed through raw pointers. The embedding keeps that picture: a
  pointer is an optional address (\<open>None\<close> is the null pointer), the free store is a
  list of cells indexed by address, and a cell that has been deleted holds \<open>None\<close>.
  Addresses are never handed out twice, so a pointer to a deleted node stays
  recognisable as dangling.
\<close>

type_synonym addr = nat
type_synonym pointer = "addr option"

text \<open>
  A \<open>double\<close> is an IEEE 754 binary64 number: a finite value with its sign and
  its magnitude (a rational \<open>k * 2^p\<close> with \<open>k < 2^53\<close>, \<open>- 1074 \<le> p\<close> and the
  whole below \<open>2^1024\<close>; negative zero is a value of its own), an infinity with its
  sign, or NaN. Every operation computes the exact result and rounds it to the
  nearest such number, a tie to the one with the even \<open>k\<close>, and to infinity from
  \<open>2^1024\<close> on.
\<close>

datatype double = Double (negative: bool) (magnitude: rat) | Infinity (negative: bool) | NaN

text \<open>Powers with an integer exponent, by squaring; the number of binary digits.\<close>

function ipow :: "rat \<Rightarrow> int \<Rightarrow> rat" where
  "ipow b e =
     (if e \<le> 0 then 1
      else if e mod 2 = 0 then ipow (b * b) (e div 2)
      else b * ipow (b * b) (e div 2))"
  by pat_completeness auto
termination
  by (relation "measure (\<lambda>(b, e). nat e)") auto

definition pow2 :: "int \<Rightarrow> rat" where
  "pow2 e = (if 0 \<le> e then ipow 2 e else 1 / ipow 2 (- e))"

function bit_length :: "int \<Rightarrow> int" where
  "bit_length n = (if n \<le> 0 then 0 else 1 + bit_length (n div 2))"
  by pat_completeness auto
termination
  by (relation "measure nat") auto

text \<open>
  For \<open>0 < q\<close>, \<open>floor_log2 q\<close> is the exponent \<open>e\<close> with \<open>2^e \<le> q < 2^(e + 1)\<close>: the
  numerator and the denominator of \<open>q\<close> fix it up to one.
\<close>

definition floor_log2 :: "rat \<Rightarrow> int" where
  "floor_log2 q =
     (let (n, d) = quotient_of q;
          k = bit_length n - bit_length d
      in if pow2 k \<le> q then k else k - 1)"

definition round_half_even :: "rat \<Rightarrow> int" where
  "round_half_even x =
     (let f = \<lfloor>x\<rfloor>; r = x - of_int f
      in if r < 1 / 2 then f else if 1 / 2 < r then f + 1 else if even f then f else f + 1)"

text \<open>
  Rounding a magnitude \<open>0 \<le> q\<close>: the spacing of the doubles around \<open>q\<close> is \<open>2^p\<close>
  with \<open>p\<close> 52 below the exponent of \<open>q\<close>, and \<open>- 1074\<close> for the subnormal ones.
\<close>

definition round_double :: "bool \<Rightarrow> rat \<Rightarrow> double" where
  "round_double s q =
     (if q = 0 then Double s 0
      else
        (let p = max (floor_log2 q - 52) (- 1074);
             r = of_int (round_half_even (q / pow2 p)) * pow2 p
         in if floor_log2 r < 1024 then Double s r else Infinity s))"

definition double_of_int :: "int \<Rightarrow> double" where
  "double_of_int i = round_double (i < 0) (of_int \<bar>i\<bar>)"

definition double_mul :: "double \<Rightarrow> double \<Rightarrow> double" where
  "double_mul a b =
     (case (a, b) of
        (Double s m, Double t n) \<Rightarrow> round_double (s \<noteq> t) (m * n)
      | (Double s m, Infinity t) \<Rightarrow> if m = 0 then NaN else Infinity (s \<noteq> t)
      | (Infinity s, Double t n) \<Rightarrow> if n = 0 then NaN else Infinity (s \<noteq> t)
      | (Infinity s, Infinity t) \<Rightarrow> Infinity (s \<noteq> t)
      | _ \<Rightarrow> NaN)"

definition double_div :: "double \<Rightarrow> double \<Rightarrow> double" where
  "double_div a b =
     (case (a, b) of
        (Double s m, Double t n) \<Rightarrow>
          if n = 0 then (if m = 0 then NaN else Infinity (s \<noteq> t))
          else round_double (s \<noteq> t) (m / n)
      | (Double s m, Infinity t) \<Rightarrow> Double (s \<noteq> t) 0
      | (Infinity s, Double t n) \<Rightarrow> Infinity (s \<noteq> t)
      | _ \<Rightarrow> NaN)"

definition double_add :: "double \<Rightarrow> double \<Rightarrow> double" where
  "double_add a b =
     (case (a, b) of
        (Double s m, Double t n) \<Rightarrow>
          if s = t then round_double s (m + n)
          else if m = n then Double False 0
          else if n < m then round_double s (m - n)
          else round_double t (n - m)
      | (Double s m, Infinity t) \<Rightarrow> Infinity t
      | (Infinity s, Double t n) \<Rightarrow> Infinity s
      | (Infinity s, Infinity t) \<Rightarrow> if s = t then Infinity s else NaN
      | _ \<Rightarrow> NaN)"

text \<open>The comparison \<open>==\<close>: the two zeros are equal, NaN equals nothing.\<close>

definition double_eq :: "double \<Rightarrow> double \<Rightarrow> bool" where
  "double_eq a b =
     (case (a, b) of
        (Double s m, Double t n) \<Rightarrow> m = n \<and> (s = t \<or> m = 0)
      | (Infinity s, Infinity t) \<Rightarrow> s = t
      | _ \<Rightarrow> False)"

text \<open>The concrete classes, each with its own data member; \<open>getType\<close> is virtual.\<close>

datatype Derived = Root | Object | Array | String string | Number double | Boolean bool | Null

datatype ValueType =
  TypeRoot | TypeObject | TypeArray | TypeString | TypeNumber | TypeBoolean | TypeNull

record Value =
  m_parent :: pointer
  m_firstChild :: pointer
  m_lastChild :: pointer
  m_prev :: pointer
  m_next :: pointer
  m_length :: int
  m_name :: string
  derived :: Derived

fun getType :: "Value \<Rightarrow> ValueType" where
  "getType v =
     (case derived v of
        Root \<Rightarrow> TypeRoot | Object \<Rightarrow> TypeObject | Array \<Rightarrow> TypeArray
      | String s \<Rightarrow> TypeString | Number d \<Rightarrow> TypeNumber | Boolean b \<Rightarrow> TypeBoolean
      | Null \<Rightarrow> TypeNull)"

text \<open>
  The constructors \<open>Value()\<close> and \<open>Value(std::string &name)\<close>: all links null, no
  children.
\<close>

definition Value_init :: "string \<Rightarrow> Derived \<Rightarrow> Value" where
  "Value_init name d =
     \<lparr>m_parent = None, m_firstChild = None, m_lastChild = None, m_prev = None,
      m_next = None, m_length = 0, m_name = name, derived = d\<rparr>"

subsection \<open>Outcomes of a call\<close>

text \<open>
  A call either returns, or throws \<open>JsonError\<close> or its subclass \<open>JsonNull\<close> (each
  with its message), or runs into undefined behaviour; the free store as it is at
  that moment is part of the outcome, since an exception does not undo the writes
  made before it. Loops that follow pointers need not terminate on a cyclic
  structure: those take a bound on their steps and yield \<open>None\<close> when it is used up.
\<close>

datatype undefined_behaviour = NullDereference | DanglingPointer | OutOfBounds | SignedOverflow

datatype error = JsonError string | JsonNull string | Undefined undefined_behaviour

type_synonym heap = "Value option list"
type_synonym 'a prog = "heap \<Rightarrow> ((error + 'a) \<times> heap) option"

definition return :: "'a \<Rightarrow> 'a prog" where
  "return x h = Some (Inr x, h)"

definition throw :: "error \<Rightarrow> 'a prog" where
  "throw e h = Some (Inl e, h)"

definition bind :: "'a prog \<Rightarrow> ('a \<Rightarrow> 'b prog) \<Rightarrow> 'b prog" where
  "bind m f h =
     (case m h of
        None \<Rightarrow> None
      | Some (Inl e, h') \<Rightarrow> Some (Inl e, h')
      | Some (Inr x, h') \<Rightarrow> f x h')"

text \<open>A temporary exception object that is constructed and not thrown has no effect.\<close>

definition discard :: "error \<Rightarrow> unit prog" where
  "discard e = return ()"

text \<open>A pointer used as a condition is true when it is not null.\<close>

definition nonnull :: "pointer \<Rightarrow> bool" where
  "nonnull p = (p \<noteq> None)"

definition cell :: "heap \<Rightarrow> addr \<Rightarrow> Value option" where
  "cell h a = (if a < length h then h ! a else None)"

definition load :: "pointer \<Rightarrow> Value prog" where
  "load p h =
     (case p of
        None \<Rightarrow> Some (Inl (Undefined NullDereference), h)
      | Some a \<Rightarrow>
          (case cell h a of
             None \<Rightarrow> Some (Inl (Undefined DanglingPointer), h)
           | Some v \<Rightarrow> Some (Inr v, h)))"

definition store :: "pointer \<Rightarrow> (Value \<Rightarrow> Value) \<Rightarrow> unit prog" where
  "store p f h =
     (case p of
        None \<Rightarrow> Some (Inl (Undefined NullDereference), h)
      | Some a \<Rightarrow>
          (case cell h a of
             None \<Rightarrow> Some (Inl (Undefined DanglingPointer), h)
           | Some v \<Rightarrow> Some (Inr (), h[a := Some (f v)])))"

definition new :: "Value \<Rightarrow> addr prog" where
  "new v h = Some (Inr (length h), h @ [Some v])"

definition free :: "addr \<Rightarrow> unit prog" where
  "free a h =
     (case cell h a of
        None \<Rightarrow> Some (Inl (Undefined DanglingPointer), h)
      | Some v \<Rightarrow> Some (Inr (), h[a := None]))"

text \<open>
  \<open>delete p\<close> runs \<open>Value::~Value\<close>, which deletes the children from first to last
  (reading each child's \<open>m_next\<close> before deleting it), and then releases the node.
\<close>

fun delete_Value :: "nat \<Rightarrow> addr \<Rightarrow> unit prog"
  and delete_children :: "nat \<Rightarrow> pointer \<Rightarrow> unit prog" where
  "delete_Value 0 this h = None"
| "delete_Value (Suc n) this h =
     bind (load (Some this)) (\<lambda>t.
     bind (delete_children n (m_firstChild t)) (\<lambda>_.
     free this)) h"
| "delete_children 0 it h = None"
| "delete_children (Suc n) it h =
     (case it of
        None \<Rightarrow> return () h
      | Some a \<Rightarrow>
          bind (load it) (\<lambda>v.
          bind (delete_Value n a) (\<lambda>_.
          delete_children n (m_next v))) h)"

subsection \<open>Linking primitives of \<open>Value\<close>\<close>

definition insertValueInt :: "addr \<Rightarrow> addr \<Rightarrow> unit prog" where
  "insertValueInt this val =
     bind (load (Some this)) (\<lambda>t.
     bind (case m_lastChild t of
             None \<Rightarrow>
               bind (store (Some this) (\<lambda>t. t\<lparr>m_length := 1\<rparr>)) (\<lambda>_.
               store (Some this) (\<lambda>t. t\<lparr>m_firstChild := Some val, m_lastChild := Some val\<rparr>))
           | Some l \<Rightarrow>
               bind (store (Some l) (\<lambda>l. l\<lparr>m_next := Some val\<rparr>)) (\<lambda>_.
               bind (load (Some this)) (\<lambda>t.
               bind (store (Some val) (\<lambda>v. v\<lparr>m_prev := m_lastChild t\<rparr>)) (\<lambda>_.
               bind (store (Some this) (\<lambda>t. t\<lparr>m_lastChild := Some val\<rparr>)) (\<lambda>_.
               store (Some this) (\<lambda>t. t\<lparr>m_length := m_length t + 1\<rparr>)))))) (\<lambda>_.
     store (Some val) (\<lambda>v. v\<lparr>m_parent := Some this\<rparr>)))"

definition insertValueBeforeInt :: "addr \<Rightarrow> addr \<Rightarrow> addr \<Rightarrow> unit prog" where
  "insertValueBeforeInt this before val =
     bind (store (Some val) (\<lambda>v. v\<lparr>m_parent := Some this\<rparr>)) (\<lambda>_.
     bind (load (Some before)) (\<lambda>b.
     bind (store (Some val) (\<lambda>v. v\<lparr>m_prev := m_prev b\<rparr>)) (\<lambda>_.
     bind (store (Some val) (\<lambda>v. v\<lparr>m_next := Some before\<rparr>)) (\<lambda>_.
     bind (store (Some before) (\<lambda>b. b\<lparr>m_prev := Some val\<rparr>)) (\<lambda>_.
     bind (load (Some val)) (\<lambda>v.
     bind (case m_prev v of
             Some p \<Rightarrow> store (Some p) (\<lambda>p. p\<lparr>m_next := Some val\<rparr>)
           | None \<Rightarrow> store (Some this) (\<lambda>t. t\<lparr>m_firstChild := Some val\<rparr>)) (\<lambda>_.
     store (Some this) (\<lambda>t. t\<lparr>m_length := m_length t + 1\<rparr>))))))))"

definition swapValueInt :: "addr \<Rightarrow> addr \<Rightarrow> addr prog" where
  "swapValueInt this val =
     bind (load (Some this)) (\<lambda>t.
     bind (store (Some val) (\<lambda>v. v\<lparr>m_parent := m_parent t\<rparr>)) (\<lambda>_.
     bind (load (Some this)) (\<lambda>t.
     bind (store (Some val) (\<lambda>v. v\<lparr>m_next := m_next t\<rparr>)) (\<lambda>_.
     bind (load (Some this)) (\<lambda>t.
     bind (store (Some val) (\<lambda>v. v\<lparr>m_prev := m_prev t\<rparr>)) (\<lambda>_.
     bind (load (Some this)) (\<lambda>t.
     bind (case m_prev t of
             Some p \<Rightarrow> store (Some p) (\<lambda>p. p\<lparr>m_next := Some val\<rparr>)
           | None \<Rightarrow> store (m_parent t) (\<lambda>p. p\<lparr>m_firstChild := Some val\<rparr>)) (\<lambda>_.
     bind (load (Some this)) (\<lambda>t.
     bind (case m_next t of
             Some n \<Rightarrow> store (Some n) (\<lambda>n. n\<lparr>m_prev := Some val\<rparr>)
           | None \<Rightarrow> store (m_parent t) (\<lambda>p. p\<lparr>m_lastChild := Some val\<rparr>)) (\<lambda>_.
     return this))))))))))"

definition removeValueInt :: "addr \<Rightarrow> addr \<Rightarrow> addr prog" where
  "removeValueInt this val =
     bind (load (Some val)) (\<lambda>v.
     bind (case m_next v of
             Some n \<Rightarrow> store (Some n) (\<lambda>n. n\<lparr>m_prev := m_prev v\<rparr>)
           | None \<Rightarrow> store (Some this) (\<lambda>t. t\<lparr>m_lastChild := m_prev v\<rparr>)) (\<lambda>_.
     bind (load (Some val)) (\<lambda>v.
     bind (case m_prev v of
             Some p \<Rightarrow> store (Some p) (\<lambda>p. p\<lparr>m_next := m_next v\<rparr>)
           | None \<Rightarrow> store (Some this) (\<lambda>t. t\<lparr>m_firstChild := m_next v\<rparr>)) (\<lambda>_.
     bind (store (Some this) (\<lambda>t. t\<lparr>m_length := m_length t - 1\<rparr>)) (\<lambda>_.
     return val)))))"

definition setName :: "addr \<Rightarrow> string \<Rightarrow> unit prog" where
  "setName this name = store (Some this) (\<lambda>t. t\<lparr>m_name := name\<rparr>)"

subsection \<open>\<open>Object\<close>: children addressed by name\<close>

text \<open>
  \<open>Object::linkValue\<close>. The test for an already linked node builds a \<open>JsonError\<close>
  without throwing it, so control continues. The loop compares names from the first
  child on; after the loop the value is appended.
\<close>

fun Object_linkValue_loop :: "nat \<Rightarrow> addr \<Rightarrow> string \<Rightarrow> addr \<Rightarrow> pointer \<Rightarrow> pointer prog" where
  "Object_linkValue_loop 0 this name val it h = None"
| "Object_linkValue_loop (Suc n) this name val it h =
     (case it of
        None \<Rightarrow>
          bind (setName val name) (\<lambda>_.
          bind (insertValueInt this val) (\<lambda>_.
          return (Some val))) h
      | Some a \<Rightarrow>
          bind (load it) (\<lambda>v.
            if m_name v = name then
              bind (setName val name) (\<lambda>_.
              bind (swapValueInt a val) (\<lambda>old.
              bind (delete_Value n old) (\<lambda>_.
              return (Some val))))
            else Object_linkValue_loop n this name val (m_next v)) h)"

definition Object_linkValue :: "nat \<Rightarrow> addr \<Rightarrow> string \<Rightarrow> pointer \<Rightarrow> pointer prog" where
  "Object_linkValue fuel this name val =
     (case val of
        None \<Rightarrow> return None
      | Some a \<Rightarrow>
          bind (load val) (\<lambda>v.
          bind (if nonnull (m_next v) \<or> nonnull (m_parent v) \<or> nonnull (m_prev v)
                then discard (JsonError ''value is already linked to JSON object'')
                else return ()) (\<lambda>_.
          bind (load (Some this)) (\<lambda>t.
          Object_linkValue_loop fuel this name a (m_firstChild t)))))"

text \<open>
  \<open>std::auto_ptr<Value> safe(value)\<close>: when the guarded call throws, unwinding
  deletes the value; undefined behaviour is not an exception and is not caught.
\<close>

definition auto_ptr_guard :: "nat \<Rightarrow> pointer \<Rightarrow> 'a prog \<Rightarrow> 'a prog" where
  "auto_ptr_guard fuel val m h =
     (case m h of
        Some (Inl (JsonError msg), h') \<Rightarrow>
          (case val of
             None \<Rightarrow> throw (JsonError msg) h'
           | Some a \<Rightarrow> bind (delete_Value fuel a) (\<lambda>_. throw (JsonError msg)) h')
      | Some (Inl (JsonNull msg), h') \<Rightarrow>
          (case val of
             None \<Rightarrow> throw (JsonNull msg) h'
           | Some a \<Rightarrow> bind (delete_Value fuel a) (\<lambda>_. throw (JsonNull msg)) h')
      | r \<Rightarrow> r)"

definition Object_linkValueSafe :: "nat \<Rightarrow> addr \<Rightarrow> string \<Rightarrow> pointer \<Rightarrow> unit prog" where
  "Object_linkValueSafe fuel this name val =
     auto_ptr_guard fuel val (bind (Object_linkValue fuel this name val) (\<lambda>_. return ()))"

definition Object_setNumber :: "nat \<Rightarrow> addr \<Rightarrow> string \<Rightarrow> double \<Rightarrow> unit prog" where
  "Object_setNumber fuel this name d =
     bind (new (Value_init [] (Number d))) (\<lambda>a. Object_linkValueSafe fuel this name (Some a))"

fun Object_removeValue_loop :: "nat \<Rightarrow> addr \<Rightarrow> string \<Rightarrow> pointer \<Rightarrow> unit prog" where
  "Object_removeValue_loop 0 this name it h = None"
| "Object_removeValue_loop (Suc n) this name it h =
     (case it of
        None \<Rightarrow> return () h
      | Some a \<Rightarrow>
          bind (load it) (\<lambda>v.
            if m_name v = name then
              bind (removeValueInt this a) (\<lambda>removed. delete_Value n removed)
            else Object_removeValue_loop n this name (m_next v)) h)"

definition Object_removeValue :: "nat \<Rightarrow> addr \<Rightarrow> string \<Rightarrow> unit prog" where
  "Object_removeValue fuel this name =
     bind (load (Some this)) (\<lambda>t. Object_removeValue_loop fuel this name (m_firstChild t))"

subsection \<open>\<open>Array\<close>: children addressed by position\<close>

text \<open>
  The three scans of \<open>Array\<close> count \<open>i\<close> up from 0 and stop at the first child for
  which \<open>i++ >= idx\<close> holds; they end after at most \<open>idx\<close> further steps or at a null
  \<open>m_next\<close>, whichever comes first.
\<close>

function Array_getValue_loop :: "int \<Rightarrow> int \<Rightarrow> pointer \<Rightarrow> addr prog" where
  "Array_getValue_loop idx i it h =
     (case it of
        None \<Rightarrow> throw (JsonNull ''index out of range'') h
      | Some a \<Rightarrow>
          (case load it h of
             Some (Inr v, h') \<Rightarrow>
               if i \<ge> idx then return a h'
               else Array_getValue_loop idx (i + 1) (m_next v) h'
           | Some (Inl e, h') \<Rightarrow> Some (Inl e, h')
           | None \<Rightarrow> None))"
  by pat_completeness auto
termination
  by (relation "measure (\<lambda>(idx, i, it, h). nat (idx - i))") auto

definition Array_getValue :: "addr \<Rightarrow> int \<Rightarrow> addr prog" where
  "Array_getValue this idx =
     bind (load (Some this)) (\<lambda>t. Array_getValue_loop idx 0 (m_firstChild t))"

function Array_linkValueInt_loop ::
  "nat \<Rightarrow> addr \<Rightarrow> addr \<Rightarrow> int \<Rightarrow> int \<Rightarrow> int \<Rightarrow> pointer \<Rightarrow> pointer prog" where
  "Array_linkValueInt_loop fuel this val position wh i it h =
     (case it of
        None \<Rightarrow> throw (JsonNull ''index out of range'') h
      | Some a \<Rightarrow>
          (case load it h of
             Some (Inr v, h') \<Rightarrow>
               if i \<ge> position then
                 (if 1 = wh then
                    bind (insertValueBeforeInt this a val) (\<lambda>_. return (Some val)) h'
                  else
                    bind (swapValueInt a val) (\<lambda>old.
                    bind (delete_Value fuel old) (\<lambda>_.
                    return (Some val))) h')
               else Array_linkValueInt_loop fuel this val position wh (i + 1) (m_next v) h'
           | Some (Inl e, h') \<Rightarrow> Some (Inl e, h')
           | None \<Rightarrow> None))"
  by pat_completeness auto
termination
  by (relation "measure (\<lambda>(fuel, this, val, position, wh, i, it, h). nat (position - i))") auto

definition Array_linkValueInt :: "nat \<Rightarrow> addr \<Rightarrow> pointer \<Rightarrow> int \<Rightarrow> int \<Rightarrow> pointer prog" where
  "Array_linkValueInt fuel this val position wh =
     (case val of
        None \<Rightarrow> return None
      | Some a \<Rightarrow>
          bind (load val) (\<lambda>v.
          bind (if nonnull (m_next v) \<or> nonnull (m_parent v) \<or> nonnull (m_prev v)
                then discard (JsonError ''value is already linked to JSON object'')
                else return ()) (\<lambda>_.
          if 0 = wh then bind (insertValueInt this a) (\<lambda>_. return val)
          else
            bind (load (Some this)) (\<lambda>t.
            Array_linkValueInt_loop fuel this a position wh 0 (m_firstChild t)))))"

definition Array_linkValueBack :: "nat \<Rightarrow> addr \<Rightarrow> pointer \<Rightarrow> pointer prog" where
  "Array_linkValueBack fuel this val = Array_linkValueInt fuel this val 0 0"

definition Array_linkValueBefore :: "nat \<Rightarrow> addr \<Rightarrow> pointer \<Rightarrow> int \<Rightarrow> pointer prog" where
  "Array_linkValueBefore fuel this val position = Array_linkValueInt fuel this val position 1"

definition Array_linkValueAt :: "nat \<Rightarrow> addr \<Rightarrow> pointer \<Rightarrow> int \<Rightarrow> pointer prog" where
  "Array_linkValueAt fuel this val position = Array_linkValueInt fuel this val position 2"

definition Array_linkValueSafe :: "nat \<Rightarrow> addr \<Rightarrow> pointer \<Rightarrow> int \<Rightarrow> int \<Rightarrow> pointer prog" where
  "Array_linkValueSafe fuel this val position wh =
     auto_ptr_guard fuel val
       (bind (Array_linkValueInt fuel this val position wh) (\<lambda>_. return val))"

definition Array_pushNumber :: "nat \<Rightarrow> addr \<Rightarrow> double \<Rightarrow> unit prog" where
  "Array_pushNumber fuel this d =
     bind (new (Value_init [] (Number d))) (\<lambda>a.
     bind (Array_linkValueSafe fuel this (Some a) 0 0) (\<lambda>_. return ()))"

definition Array_insertNumber :: "nat \<Rightarrow> addr \<Rightarrow> int \<Rightarrow> double \<Rightarrow> unit prog" where
  "Array_insertNumber fuel this before d =
     bind (new (Value_init [] (Number d))) (\<lambda>a.
     bind (Array_linkValueSafe fuel this (Some a) before 1) (\<lambda>_. return ()))"

definition Array_setNumber :: "nat \<Rightarrow> addr \<Rightarrow> int \<Rightarrow> double \<Rightarrow> unit prog" where
  "Array_setNumber fuel this position d =
     bind (new (Value_init [] (Number d))) (\<lambda>a.
     bind (Array_linkValueSafe fuel this (Some a) position 2) (\<lambda>_. return ()))"

function Array_removeValue_loop :: "nat \<Rightarrow> addr \<Rightarrow> int \<Rightarrow> int \<Rightarrow> pointer \<Rightarrow> unit prog" where
  "Array_removeValue_loop fuel this position i it h =
     (case it of
        None \<Rightarrow> throw (JsonNull ''index out of range'') h
      | Some a \<Rightarrow>
          (case load it h of
             Some (Inr v, h') \<Rightarrow>
               if i \<ge> position then
                 bind (removeValueInt this a) (\<lambda>removed. delete_Value fuel removed) h'
               else Array_removeValue_loop fuel this position (i + 1) (m_next v) h'
           | Some (Inl e, h') \<Rightarrow> Some (Inl e, h')
           | None \<Rightarrow> None))"
  by pat_completeness auto
termination
  by (relation "measure (\<lambda>(fuel, this, position, i, it, h). nat (position - i))") auto

definition Array_removeValue :: "nat \<Rightarrow> addr \<Rightarrow> int \<Rightarrow> unit prog" where
  "Array_removeValue fuel this position =
     bind (load (Some this)) (\<lambda>t. Array_removeValue_loop fuel this position 0 (m_firstChild t))"

section \<open>The parser of \<open>Root\<close>\<close>

text \<open>
  The text is a NUL-terminated \<open>const char *\<close>. A position in it is the list of the
  characters from there up to the terminator: the empty list is the position of the
  terminator itself, where \<open>*ptr\<close> reads 0. Moving past the terminator and reading
  there is outside the buffer.
\<close>

definition deref :: "string \<Rightarrow> char" where
  "deref ptr = (case ptr of [] \<Rightarrow> CHR 0x00 | c # cs \<Rightarrow> c)"

definition skip :: "string \<Rightarrow> nat \<Rightarrow> string" where
  "skip ptr count = drop count ptr"

definition ord :: "char \<Rightarrow> int" where
  "ord c = of_char c"

fun whitespace :: "string \<Rightarrow> string" where
  "whitespace [] = []"
| "whitespace (c # cs) =
     (if c = CHR 0x20 \<or> c = CHR 0x09 \<or> c = CHR 0x0A \<or> c = CHR 0x0D then whitespace cs
      else c # cs)"

definition isDigit :: "char \<Rightarrow> bool" where
  "isDigit digit = (ord digit \<ge> ord CHR ''0'' \<and> ord digit \<le> ord CHR ''9'')"

subsection \<open>\<open>parse_unicode\<close> and \<open>parse_string\<close>\<close>

text \<open>The loop \<open>for (int i = 0; i < 4; ++i)\<close>, by the number of rounds still to run.\<close>

fun parse_unicode_loop :: "nat \<Rightarrow> int \<Rightarrow> string \<Rightarrow> error + int \<times> string" where
  "parse_unicode_loop 0 val ptr = Inr (val, ptr)"
| "parse_unicode_loop (Suc k) val ptr =
     (let hex = deref ptr in
      if ord hex \<ge> ord CHR ''0'' \<and> ord hex \<le> ord CHR ''9'' then
        parse_unicode_loop k (push_bit 4 val + (ord hex - ord CHR ''0'')) (skip ptr 1)
      else if ord hex \<ge> ord CHR ''a'' \<and> ord hex \<le> ord CHR ''f'' then
        parse_unicode_loop k (push_bit 4 val + (ord hex - ord CHR ''a'' + 10)) (skip ptr 1)
      else if ord hex \<ge> ord CHR ''A'' \<and> ord hex \<le> ord CHR ''F'' then
        parse_unicode_loop k (push_bit 4 val + (ord hex - ord CHR ''A'' + 10)) (skip ptr 1)
      else Inl (JsonError ''bad escaped character''))"

definition parse_unicode :: "string \<Rightarrow> error + int \<times> string" where
  "parse_unicode ptr = parse_unicode_loop 4 0 ptr"

text \<open>
  The bytes appended for a code point: the lead byte chosen by magnitude, then the
  loop \<open>for (int i = len; i > 1; --i)\<close> with \<open>shift = (i - 2) * 6\<close>. Appending an
  \<open>int\<close> to a \<open>std::string\<close> keeps its low eight bits.
\<close>

fun continuation_bytes :: "nat \<Rightarrow> int \<Rightarrow> string" where
  "continuation_bytes (Suc (Suc k)) unicode =
     char_of (0x80 OR (drop_bit (k * 6) unicode AND 0x3f)) # continuation_bytes (Suc k) unicode"
| "continuation_bytes i unicode = []"

definition utf8_bytes :: "int \<Rightarrow> string" where
  "utf8_bytes unicode =
     (if unicode < 0x80 then char_of unicode # continuation_bytes 1 unicode
      else if unicode < 0x800 then
        char_of (0xc0 OR drop_bit 6 unicode) # continuation_bytes 2 unicode
      else if unicode < 0x10000 then
        char_of (0xe0 OR drop_bit 12 unicode) # continuation_bytes 3 unicode
      else char_of (0xf0 OR drop_bit 18 unicode) # continuation_bytes 4 unicode)"

text \<open>
  \<open>case 'u'\<close> of the escape switch, from after the \<open>u\<close>: the first unit, the test
  for a lone low surrogate or zero, the second unit when the first is a high
  surrogate, and the encoded bytes.
\<close>

definition parse_escape_u :: "string \<Rightarrow> string \<Rightarrow> error + string \<times> string" where
  "parse_escape_u val ptr =
     (case parse_unicode ptr of
        Inl e \<Rightarrow> Inl e
      | Inr (unicode, ptr) \<Rightarrow>
          if (unicode \<ge> 0xDC00 \<and> unicode \<le> 0xDFFF) \<or> unicode = 0 then
            Inl (JsonError ''bad unicode character'')
          else if unicode \<ge> 0xD800 \<and> unicode \<le> 0xDBFF then
            (if deref ptr \<noteq> CHR 0x5C then
               Inl (JsonError ''expected second unicode surrogate part'')
             else if deref (skip ptr 1) \<noteq> CHR ''u'' then
               Inl (JsonError ''expected second unicode surrogate part'')
             else
               (case parse_unicode (skip (skip ptr 1) 1) of
                  Inl e \<Rightarrow> Inl e
                | Inr (unicode2, ptr) \<Rightarrow>
                    Inr (val @ utf8_bytes
                           (0x10000 + (push_bit 10 (unicode AND 0x3FF) OR (unicode2 AND 0x3FF))),
                         ptr)))
          else Inr (val @ utf8_bytes unicode, ptr))"

text \<open>
  The switch after a backslash. In the default case the character is appended and
  skipped whatever it is; when it is the terminator, the scan continues outside the
  buffer.
\<close>

definition parse_escape :: "string \<Rightarrow> string \<Rightarrow> error + string \<times> string" where
  "parse_escape val ptr =
     (if deref ptr = CHR ''b'' then Inr (val @ [CHR 0x08], skip ptr 1)
      else if deref ptr = CHR ''f'' then Inr (val @ [CHR 0x0C], skip ptr 1)
      else if deref ptr = CHR ''n'' then Inr (val @ [CHR 0x0A], skip ptr 1)
      else if deref ptr = CHR ''r'' then Inr (val @ [CHR 0x0D], skip ptr 1)
      else if deref ptr = CHR ''t'' then Inr (val @ [CHR 0x09], skip ptr 1)
      else if deref ptr = CHR ''u'' then parse_escape_u val (skip ptr 1)
      else if ptr = [] then Inl (Undefined OutOfBounds)
      else Inr (val @ [deref ptr], skip ptr 1))"

text \<open>\<open>value.append(start, ptr - start)\<close>, guarded by \<open>ptr != start\<close>.\<close>

definition append_run :: "string \<Rightarrow> string \<Rightarrow> string \<Rightarrow> string" where
  "append_run val start ptr =
     (if length ptr \<noteq> length start then val @ take (length start - length ptr) start else val)"

lemma parse_unicode_loop_length:
  "parse_unicode_loop k val ptr = Inr (u, ptr') \<Longrightarrow> length ptr' \<le> length ptr"
  by (induction k val ptr rule: parse_unicode_loop.induct)
     (auto simp: Let_def skip_def split: if_splits)

lemma parse_escape_u_length:
  "parse_escape_u val ptr = Inr (val', ptr') \<Longrightarrow> length ptr' \<le> length ptr"
  by (auto simp: parse_escape_u_def parse_unicode_def skip_def
           split: sum.splits if_splits dest!: parse_unicode_loop_length)

lemma parse_escape_length:
  "parse_escape val ptr = Inr (val', ptr') \<Longrightarrow> length ptr' \<le> length ptr"
  by (auto simp: parse_escape_def skip_def split: if_splits dest!: parse_escape_u_length)

function parse_string_loop :: "string \<Rightarrow> string \<Rightarrow> string \<Rightarrow> error + string \<times> string" where
  "parse_string_loop val start ptr =
     (if deref ptr \<noteq> CHR 0x22 \<and> deref ptr \<noteq> CHR 0x00 then
        (if deref ptr \<noteq> CHR 0x5C then parse_string_loop val start (skip ptr 1)
         else
           (case parse_escape (append_run val start ptr) (skip ptr 1) of
              Inl e \<Rightarrow> Inl e
            | Inr (val', ptr') \<Rightarrow> parse_string_loop val' ptr' ptr'))
      else if deref ptr = CHR 0x00 then Inr (append_run val start ptr, ptr)
      else Inr (append_run val start ptr, skip ptr 1))"
  by pat_completeness auto
termination
proof (relation "measure (\<lambda>(val, start, ptr). length ptr)")
  show "wf (measure (\<lambda>(val, start, ptr). length ptr))" by simp
next
  fix val start ptr :: string
  assume "deref ptr \<noteq> CHR 0x22 \<and> deref ptr \<noteq> CHR 0x00"
  then show "((val, start, skip ptr 1), (val, start, ptr)) \<in> measure (\<lambda>(val, start, ptr). length ptr)"
    by (cases ptr) (auto simp: deref_def skip_def)
next
  fix val start ptr :: string and x2 val' ptr'
  assume "deref ptr \<noteq> CHR 0x22 \<and> deref ptr \<noteq> CHR 0x00"
    and "parse_escape (append_run val start ptr) (skip ptr 1) = Inr x2"
    and "(val', ptr') = x2"
  then show "((val', ptr', ptr'), (val, start, ptr)) \<in> measure (\<lambda>(val, start, ptr). length ptr)"
    using parse_escape_length [of "append_run val start ptr" "skip ptr 1" val' ptr']
    by (cases ptr) (auto simp: deref_def skip_def)
qed

text \<open>
  \<open>parse_string\<close> skips one character unconditionally (the opening quote when the
  caller has seen one). Called at the terminator, it reads outside the buffer.
\<close>

definition parse_string :: "string \<Rightarrow> error + string \<times> string" where
  "parse_string ptr =
     (if ptr = [] then Inl (Undefined OutOfBounds)
      else if deref (skip ptr 1) = CHR 0x22 then Inr ([], skip (skip ptr 1) 1)
      else parse_string_loop [] (skip ptr 1) (skip ptr 1))"

subsection \<open>\<open>parse_number\<close>\<close>

text \<open>
  \<open>exp\<close>, \<open>frac\<close> and \<open>e\<close> are \<open>int\<close>, taken as 32 bits wide; a signed result
  outside that range is undefined behaviour.
\<close>

definition int_range :: "int \<Rightarrow> bool" where
  "int_range x = (- 2147483648 \<le> x \<and> x \<le> 2147483647)"

fun integral_loop :: "double \<Rightarrow> string \<Rightarrow> double \<times> string" where
  "integral_loop number [] = (number, [])"
| "integral_loop number (c # cs) =
     (if isDigit c then
        integral_loop
          (double_add (double_mul number (double_of_int 10)) (double_of_int (ord c - ord CHR ''0''))) cs
      else (number, c # cs))"

fun fraction_loop :: "double \<Rightarrow> int \<Rightarrow> string \<Rightarrow> error + double \<times> int \<times> string" where
  "fraction_loop number frac' [] = Inr (number, frac', [])"
| "fraction_loop number frac' (c # cs) =
     (if isDigit c then
        (if int_range (frac' + 1) then
           fraction_loop
             (double_add (double_mul number (double_of_int 10)) (double_of_int (ord c - ord CHR ''0'')))
             (frac' + 1) cs
         else Inl (Undefined SignedOverflow))
      else Inr (number, frac', c # cs))"

fun exponent_loop :: "int \<Rightarrow> string \<Rightarrow> error + int \<times> string" where
  "exponent_loop exp' [] = Inr (exp', [])"
| "exponent_loop exp' (c # cs) =
     (if isDigit c then
        (if int_range (exp' * 10) \<and> int_range (exp' * 10 + (ord c - ord CHR ''0'')) then
           exponent_loop (exp' * 10 + (ord c - ord CHR ''0'')) cs
         else Inl (Undefined SignedOverflow))
      else Inr (exp', c # cs))"

text \<open>
  The scaling loop \<open>while (e)\<close>. At its entry \<open>e\<close> is the absolute value of \<open>exp\<close>, so
  the test \<open>e != 0\<close> is \<open>0 < e\<close>.
\<close>

function scale_loop :: "int \<Rightarrow> int \<Rightarrow> double \<Rightarrow> double \<Rightarrow> double" where
  "scale_loop exp' e e10 number =
     (if 0 < e then
        scale_loop exp' (drop_bit 1 e) (double_mul e10 e10)
          (if e AND 1 \<noteq> 0 then
             (if exp' < 0 then double_div number e10 else double_mul number e10)
           else number)
      else number)"
  by pat_completeness auto
termination
  by (relation "measure (\<lambda>(exp', e, e10, number). nat e)") (auto simp: drop_bit_eq_div)

definition parse_number :: "string \<Rightarrow> error + double \<times> string" where
  "parse_number ptr0 =
     (let (sign, ptr) =
            (if deref ptr0 = CHR ''-'' then (double_of_int (- 1), skip ptr0 1)
             else (double_of_int 1, ptr0))
      in
      case (if deref ptr = CHR ''0'' then
              (if isDigit (deref (skip ptr 1)) then Inl (JsonError ''leading zeros are not allowed'')
               else Inr (double_of_int 0, skip ptr 1))
            else if isDigit (deref ptr) then Inr (integral_loop (double_of_int 0) ptr)
            else Inr (double_of_int 0, ptr)) of
        Inl e \<Rightarrow> Inl e
      | Inr (number, ptr) \<Rightarrow>
      case (if deref ptr = CHR ''.'' then
              (if \<not> isDigit (deref (skip ptr 1)) then
                 Inl (JsonError (''expected digit after '.'' @ [CHR 0x27]))
               else fraction_loop number 0 (skip ptr 1))
            else Inr (number, 0, ptr)) of
        Inl e \<Rightarrow> Inl e
      | Inr (number, frac', ptr) \<Rightarrow>
      case (if deref ptr = CHR ''e'' \<or> deref ptr = CHR ''E'' then
              (let (expSign, ptr) =
                     (if deref (skip ptr 1) = CHR ''-'' then (- 1, skip (skip ptr 1) 1)
                      else if deref (skip ptr 1) = CHR ''+'' then (1, skip (skip ptr 1) 1)
                      else (1, skip ptr 1))
               in
               if \<not> isDigit (deref ptr) then
                 Inl (JsonError (''expected digit after 'e' or 'E'' @ [CHR 0x27]))
               else
                 (case exponent_loop 0 ptr of
                    Inl e \<Rightarrow> Inl e
                  | Inr (exp', ptr) \<Rightarrow> Inr (expSign, exp', ptr)))
            else Inr (1, 0, ptr)) of
        Inl e \<Rightarrow> Inl e
      | Inr (expSign, exp', ptr) \<Rightarrow>
          (let number = double_mul sign number;
               exp' = exp' * expSign - frac'
           in
           if int_range exp' \<and> int_range \<bar>exp'\<bar> then
             Inr (scale_loop exp' \<bar>exp'\<bar> (double_of_int 10) number, ptr)
           else Inl (Undefined SignedOverflow)))"

subsection \<open>\<open>parse_value\<close> and \<open>parse\<close>\<close>

text \<open>
  \<open>parse_value\<close> links every node into its parent when it creates it: a container
  before its members are read, a scalar after its token has been read. The two
  \<open>while (1)\<close> loops are functions of their own; the bound counts calls and rounds.
\<close>

fun parse_value :: "nat \<Rightarrow> addr \<Rightarrow> string \<Rightarrow> string \<Rightarrow> string prog"
  and parse_object_loop :: "nat \<Rightarrow> addr \<Rightarrow> string \<Rightarrow> string prog"
  and parse_array_loop :: "nat \<Rightarrow> addr \<Rightarrow> string \<Rightarrow> string prog" where
  "parse_value 0 parent name ptr h = None"
| "parse_value (Suc n) parent name ptr h =
     (if deref (whitespace ptr) = CHR ''{'' then
        bind (new (Value_init name Object)) (\<lambda>object.
        bind (insertValueInt parent object) (\<lambda>_.
        if deref (whitespace (skip (whitespace ptr) 1)) = CHR ''}'' then
          return (skip (whitespace (skip (whitespace ptr) 1)) 1)
        else parse_object_loop n object (whitespace (skip (whitespace ptr) 1)))) h
      else if deref (whitespace ptr) = CHR ''['' then
        bind (new (Value_init name Array)) (\<lambda>array.
        bind (insertValueInt parent array) (\<lambda>_.
        if deref (whitespace (skip (whitespace ptr) 1)) = CHR '']'' then
          return (skip (whitespace (skip (whitespace ptr) 1)) 1)
        else parse_array_loop n array (whitespace (skip (whitespace ptr) 1)))) h
      else if deref (whitespace ptr) = CHR 0x22 then
        (case parse_string (whitespace ptr) of
           Inl e \<Rightarrow> throw e h
         | Inr (string, ptr') \<Rightarrow>
             bind (new (Value_init name (String string))) (\<lambda>v.
             bind (insertValueInt parent v) (\<lambda>_.
             return ptr')) h)
      else if deref (whitespace ptr) = CHR ''t'' \<and> take 4 (whitespace ptr) = ''true'' then
        bind (new (Value_init name (Boolean True))) (\<lambda>v.
        bind (insertValueInt parent v) (\<lambda>_.
        return (skip (whitespace ptr) 4))) h
      else if deref (whitespace ptr) = CHR ''f'' \<and> take 5 (whitespace ptr) = ''false'' then
        bind (new (Value_init name (Boolean False))) (\<lambda>v.
        bind (insertValueInt parent v) (\<lambda>_.
        return (skip (whitespace ptr) 5))) h
      else if deref (whitespace ptr) = CHR ''n'' \<and> take 4 (whitespace ptr) = ''null'' then
        bind (new (Value_init name Null)) (\<lambda>v.
        bind (insertValueInt parent v) (\<lambda>_.
        return (skip (whitespace ptr) 4))) h
      else if deref (whitespace ptr) = CHR ''-'' \<or> isDigit (deref (whitespace ptr)) then
        (case parse_number (whitespace ptr) of
           Inl e \<Rightarrow> throw e h
         | Inr (number, ptr') \<Rightarrow>
             bind (new (Value_init name (Number number))) (\<lambda>v.
             bind (insertValueInt parent v) (\<lambda>_.
             return ptr')) h)
      else throw (JsonError ''unexpected character'') h)"
| "parse_object_loop 0 object ptr h = None"
| "parse_object_loop (Suc n) object ptr h =
     (case parse_string (whitespace ptr) of
        Inl e \<Rightarrow> throw e h
      | Inr (valueName, ptr1) \<Rightarrow>
          if deref (whitespace ptr1) \<noteq> CHR '':'' then
            throw (JsonError ''expected ':' before object value'') h
          else
            bind (parse_value n object valueName (skip (whitespace ptr1) 1)) (\<lambda>ptr2.
              if deref (whitespace ptr2) = CHR '','' then
                parse_object_loop n object (skip (whitespace ptr2) 1)
              else if deref (whitespace ptr2) = CHR ''}'' then
                return (skip (whitespace ptr2) 1)
              else throw (JsonError ''expected '}' or ',' after object element'')) h)"
| "parse_array_loop 0 array ptr h = None"
| "parse_array_loop (Suc n) array ptr h =
     bind (parse_value n array [] ptr) (\<lambda>ptr2.
       if deref (whitespace ptr2) = CHR '','' then
         parse_array_loop n array (skip (whitespace ptr2) 1)
       else if deref (whitespace ptr2) = CHR '']'' then
         return (skip (whitespace ptr2) 1)
       else throw (JsonError ''expected ']' or ',' after array element'')) h"

text \<open>
  \<open>Root::parse\<close>: a null text returns at once; otherwise the first child is deleted,
  \<open>m_firstChild\<close> is cleared (\<open>m_lastChild\<close> and \<open>m_length\<close> are left as they are), and
  one value is parsed into the root with an empty name.
\<close>

definition Root_parse :: "nat \<Rightarrow> addr \<Rightarrow> string option \<Rightarrow> unit prog" where
  "Root_parse fuel this json =
     (case json of
        None \<Rightarrow> return ()
      | Some text \<Rightarrow>
          bind (load (Some this)) (\<lambda>t.
          bind (case m_firstChild t of
                  Some c \<Rightarrow> delete_Value fuel c
                | None \<Rightarrow> return ()) (\<lambda>_.
          bind (store (Some this) (\<lambda>t. t\<lparr>m_firstChild := None\<rparr>)) (\<lambda>_.
          bind (parse_value fuel this [] text) (\<lambda>_.
          return ())))))"

text \<open>\<open>Root::linkValue\<close> installs an owned node as the first child.\<close>

definition Root_linkValue :: "nat \<Rightarrow> addr \<Rightarrow> pointer \<Rightarrow> pointer prog" where
  "Root_linkValue fuel this val =
     bind (load (Some this)) (\<lambda>t.
     bind (case m_firstChild t of
             Some c \<Rightarrow> delete_Value fuel c
           | None \<Rightarrow> return ()) (\<lambda>_.
     bind (store (Some this) (\<lambda>t. t\<lparr>m_firstChild := val\<rparr>)) (\<lambda>_.
     return val)))"


definition childCount :: "heap \<Rightarrow> addr \<Rightarrow> int" where
  "childCount h a = (case cell h a of Some v \<Rightarrow> m_length v | None \<Rightarrow> 0)"

section \<open>The printer\<close>

text \<open>
  A \<open>Printer\<close> is a \<open>Visitor\<close> that writes to a \<open>std::ostream\<close>; \<open>m_out\<close> is kept as the
  characters written to that stream so far.
\<close>

record Printer =
  m_out :: string
  m_depth :: int
  m_format :: bool
  m_tab :: string
  m_lineBreak :: string

definition Printer_init :: "string \<Rightarrow> Printer" where
  "Printer_init out =
     \<lparr>m_out = out, m_depth = 0, m_format = False, m_tab = [], m_lineBreak = []\<rparr>"

definition setFormating :: "bool \<Rightarrow> string \<Rightarrow> string \<Rightarrow> Printer \<Rightarrow> Printer" where
  "setFormating format tab lineBreak pr =
     pr\<lparr>m_format := format, m_lineBreak := lineBreak, m_tab := tab\<rparr>"

text \<open>\<open>m_out << s\<close> for a character or a string.\<close>

definition put :: "string \<Rightarrow> Printer \<Rightarrow> Printer" where
  "put s pr = pr\<lparr>m_out := m_out pr @ s\<rparr>"

subsection \<open>Insertion of a \<open>double\<close>\<close>

text \<open>
  \<open>operator<<\<close> for a \<open>double\<close> belongs to the C++ library. On a stream with the
  flags of a new stream and the classic locale it writes what \<open>printf\<close> writes for
  \<open>%.Pg\<close>, \<open>P\<close> the precision of the stream: the value is rounded to \<open>P\<close>
  significant decimal digits (exactly, a tie to the even digit); with \<open>x\<close> the
  decimal exponent of the rounded value, the fixed notation is used when
  \<open>- 4 \<le> x < P\<close> and the scientific one otherwise, and trailing zeros of the
  fraction, and a decimal point with nothing after it, are removed. A precision
  of zero counts as one.
\<close>

definition digit_char :: "int \<Rightarrow> char" where
  "digit_char k = char_of (48 + k)"

function decimal :: "int \<Rightarrow> string" where
  "decimal n = (if n < 10 then [digit_char n] else decimal (n div 10) @ [digit_char (n mod 10)])"
  by pat_completeness auto
termination
  by (relation "measure nat") auto

definition pow10 :: "int \<Rightarrow> rat" where
  "pow10 e = (if 0 \<le> e then ipow 10 e else 1 / ipow 10 (- e))"

definition floor_log10 :: "rat \<Rightarrow> int" where
  "floor_log10 q =
     (let (n, d) = quotient_of q;
          k = int (length (decimal n)) - int (length (decimal d))
      in if pow10 k \<le> q then k else k - 1)"

definition strip_zeros :: "string \<Rightarrow> string" where
  "strip_zeros ds = rev (dropWhile (\<lambda>c. c = CHR ''0'') (rev ds))"

definition with_point :: "string \<Rightarrow> string \<Rightarrow> string" where
  "with_point ip fp = (if strip_zeros fp = [] then ip else ip @ ''.'' @ strip_zeros fp)"

definition exponent_field :: "int \<Rightarrow> string" where
  "exponent_field x =
     (if x < 0 then ''e-'' else ''e+'') @ (if \<bar>x\<bar> < 10 then ''0'' else []) @ decimal \<bar>x\<bar>"

definition format_g :: "nat \<Rightarrow> double \<Rightarrow> string" where
  "format_g P v =
     (case v of
        NaN \<Rightarrow> ''nan''
      | Infinity s \<Rightarrow> (if s then ''-inf'' else ''inf'')
      | Double s m \<Rightarrow>
          (if s then ''-'' else []) @
          (if m = 0 then ''0''
           else
             (let P = (if P = 0 then 1 else P);
                  x0 = floor_log10 m;
                  d0 = round_half_even (m / pow10 (x0 - int P + 1));
                  (d, x) = (if d0 = 10 ^ P then (10 ^ (P - 1), x0 + 1) else (d0, x0));
                  ds = decimal d
              in
              if - 4 \<le> x \<and> x < int P then
                (if 0 \<le> x then with_point (take (nat x + 1) ds) (drop (nat x + 1) ds)
                 else with_point ''0'' (replicate (nat (- x - 1)) CHR ''0'' @ ds))
              else with_point (take 1 ds) (drop 1 ds) @ exponent_field x)))"

text \<open>\<open>std::numeric_limits<double>::digits10\<close>.\<close>

definition digits10 :: nat where
  "digits10 = 15"

subsection \<open>The members of \<open>Printer\<close>\<close>

text \<open>\<open>m_out.write(str, ptr - str)\<close>, guarded by \<open>ptr != str\<close>.\<close>

definition write_run :: "string \<Rightarrow> string \<Rightarrow> Printer \<Rightarrow> Printer" where
  "write_run str ptr pr =
     (if length ptr \<noteq> length str then put (take (length str - length ptr) str) pr else pr)"

definition hex :: "int \<Rightarrow> char" where
  "hex k = ''0123456789abcdef'' ! nat k"

text \<open>The \<open>switch\<close> of \<open>printEscapedString\<close>.\<close>

definition escape_sequence :: "char \<Rightarrow> string" where
  "escape_sequence c =
     (if c = CHR 0x5C then [CHR 0x5C, CHR 0x5C]
      else if c = CHR 0x22 then [CHR 0x5C, CHR 0x22]
      else if c = CHR 0x08 then [CHR 0x5C, CHR ''b'']
      else if c = CHR 0x0C then [CHR 0x5C, CHR ''f'']
      else if c = CHR 0x0A then [CHR 0x5C, CHR ''n'']
      else if c = CHR 0x0D then [CHR 0x5C, CHR ''r'']
      else if c = CHR 0x09 then [CHR 0x5C, CHR ''t'']
      else [CHR 0x5C] @ ''u00'' @ [hex (drop_bit 4 (ord c)), hex (ord c AND 15)])"

text \<open>
  The loop of \<open>printEscapedString\<close> over \<open>value.c_str()\<close>, with \<open>str\<close> the start of the
  run not yet written and \<open>ptr\<close> the position of the scan.
\<close>

function printEscapedString_loop :: "string \<Rightarrow> string \<Rightarrow> Printer \<Rightarrow> Printer" where
  "printEscapedString_loop str ptr pr =
     (if deref ptr \<noteq> CHR 0x00 then
        (if 31 < ord (deref ptr) \<and> deref ptr \<noteq> CHR 0x22 \<and> deref ptr \<noteq> CHR 0x5C then
           printEscapedString_loop str (skip ptr 1) pr
         else
           printEscapedString_loop (skip ptr 1) (skip ptr 1)
             (put (escape_sequence (deref ptr)) (write_run str ptr pr)))
      else write_run str ptr pr)"
  by pat_completeness auto
termination
  by (relation "measure (\<lambda>(str, ptr, pr). length ptr)")
     (auto simp: deref_def skip_def split: list.splits)

definition printEscapedString :: "string \<Rightarrow> Printer \<Rightarrow> Printer" where
  "printEscapedString val pr =
     put [CHR 0x22] (printEscapedString_loop val val (put [CHR 0x22] pr))"

definition printName :: "addr \<Rightarrow> Printer \<Rightarrow> Printer prog" where
  "printName val pr =
     bind (load (Some val)) (\<lambda>v.
     case m_parent v of
       None \<Rightarrow> return pr
     | Some p \<Rightarrow>
         bind (load (Some p)) (\<lambda>pv.
         if getType pv = TypeObject then
           return (put (if m_format pr then '' : '' else '':'') (printEscapedString (m_name v) pr))
         else return pr))"

definition printIndent :: "Printer \<Rightarrow> Printer" where
  "printIndent pr =
     (if m_format pr then put (concat (replicate (nat (m_depth pr)) (m_tab pr))) pr else pr)"

definition printLineBreak :: "Printer \<Rightarrow> Printer" where
  "printLineBreak pr = (if m_format pr then put (m_lineBreak pr) pr else pr)"

definition printSeparator :: "addr \<Rightarrow> Printer \<Rightarrow> Printer prog" where
  "printSeparator val pr =
     bind (load (Some val)) (\<lambda>v.
     return (printIndent (if nonnull (m_prev v) then printLineBreak (put '','' pr) else pr)))"

definition Printer_enter :: "addr \<Rightarrow> Printer \<Rightarrow> (bool \<times> Printer) prog" where
  "Printer_enter val pr =
     bind (load (Some val)) (\<lambda>v.
     bind (printName val
             (printIndent (if nonnull (m_prev v) then printLineBreak (put '','' pr) else pr))) (\<lambda>pr.
     let pr = (if getType v = TypeArray then put ''['' pr
               else if getType v = TypeObject then put ''{'' pr
               else pr);
         pr = printLineBreak pr
     in
     if int_range (m_depth pr + 1) then return (True, pr\<lparr>m_depth := m_depth pr + 1\<rparr>)
     else throw (Undefined SignedOverflow)))"

definition Printer_visit_Boolean :: "addr \<Rightarrow> bool \<Rightarrow> Printer \<Rightarrow> (bool \<times> Printer) prog" where
  "Printer_visit_Boolean val b pr =
     bind (printSeparator val pr) (\<lambda>pr.
     bind (printName val pr) (\<lambda>pr.
     return (True, put (if b then ''true'' else ''false'') pr)))"

definition Printer_visit_Null :: "addr \<Rightarrow> Printer \<Rightarrow> (bool \<times> Printer) prog" where
  "Printer_visit_Null val pr =
     bind (printSeparator val pr) (\<lambda>pr.
     bind (printName val pr) (\<lambda>pr.
     return (True, put ''null'' pr)))"

definition Printer_visit_String :: "addr \<Rightarrow> string \<Rightarrow> Printer \<Rightarrow> (bool \<times> Printer) prog" where
  "Printer_visit_String val s pr =
     bind (printSeparator val pr) (\<lambda>pr.
     bind (printName val pr) (\<lambda>pr.
     return (True, printEscapedString s pr)))"

definition Printer_visit_Number :: "addr \<Rightarrow> double \<Rightarrow> Printer \<Rightarrow> (bool \<times> Printer) prog" where
  "Printer_visit_Number val d pr =
     bind (printSeparator val pr) (\<lambda>pr.
     bind (printName val pr) (\<lambda>pr.
     return (True, put (format_g (digits10 + 1) d) pr)))"

definition Printer_exit :: "addr \<Rightarrow> Printer \<Rightarrow> (bool \<times> Printer) prog" where
  "Printer_exit val pr =
     (if int_range (m_depth pr - 1) then
        bind (load (Some val)) (\<lambda>v.
        let pr = printIndent (printLineBreak (pr\<lparr>m_depth := m_depth pr - 1\<rparr>))
        in
        return (True,
          if getType v = TypeArray then put '']'' pr
          else if getType v = TypeObject then put ''}'' pr
          else pr))
      else throw (Undefined SignedOverflow))"

subsection \<open>\<open>traverse\<close> and \<open>print\<close>\<close>

text \<open>
  The virtual \<open>traverse\<close>: a scalar calls its \<open>visit\<close>; an \<open>Object\<close> or \<open>Array\<close> calls
  \<open>enter\<close>, traverses its children from the first until one returns false, and
  calls \<open>exit\<close>; a \<open>Root\<close> traverses its first child and returns true. The bound
  counts calls and rounds of the loop.
\<close>

fun traverse :: "nat \<Rightarrow> addr \<Rightarrow> Printer \<Rightarrow> (bool \<times> Printer) prog"
  and traverse_loop :: "nat \<Rightarrow> pointer \<Rightarrow> Printer \<Rightarrow> Printer prog" where
  "traverse 0 this pr h = None"
| "traverse (Suc n) this pr h =
     bind (load (Some this)) (\<lambda>t.
     case derived t of
       Root \<Rightarrow>
         (case m_firstChild t of
            None \<Rightarrow> return (True, pr)
          | Some c \<Rightarrow> bind (traverse n c pr) (\<lambda>(b, pr). return (True, pr)))
     | Object \<Rightarrow>
         bind (Printer_enter this pr) (\<lambda>(b, pr).
         bind (if b then traverse_loop n (m_firstChild t) pr else return pr) (\<lambda>pr.
         Printer_exit this pr))
     | Array \<Rightarrow>
         bind (Printer_enter this pr) (\<lambda>(b, pr).
         bind (if b then traverse_loop n (m_firstChild t) pr else return pr) (\<lambda>pr.
         Printer_exit this pr))
     | String s \<Rightarrow> Printer_visit_String this s pr
     | Number d \<Rightarrow> Printer_visit_Number this d pr
     | Boolean b \<Rightarrow> Printer_visit_Boolean this b pr
     | Null \<Rightarrow> Printer_visit_Null this pr) h"
| "traverse_loop 0 it pr h = None"
| "traverse_loop (Suc n) it pr h =
     (case it of
        None \<Rightarrow> return pr h
      | Some c \<Rightarrow>
          bind (traverse n c pr) (\<lambda>(b, pr).
          if b then bind (load (Some c)) (\<lambda>v. traverse_loop n (m_next v) pr)
          else return pr) h)"

text \<open>
  \<open>Root::print\<close>, with \<open>out\<close> what the stream holds at the call; the result is what
  it holds at the return.
\<close>

definition Root_print :: "nat \<Rightarrow> addr \<Rightarrow> string \<Rightarrow> bool \<Rightarrow> string prog" where
  "Root_print fuel this out format =
     bind (traverse fuel this (setFormating format ''   '' [CHR 0x0A] (Printer_init out)))
       (\<lambda>(b, printer). return (m_out printer))"

section \<open>Observing the tree\<close>

text \<open>
  \<open>siblings h it cs\<close>: following \<open>m_next\<close> from \<open>it\<close> visits exactly the live nodes
  \<open>cs\<close>, in this order, and then reaches the null pointer. For \<open>it\<close> the first child
  of a node, \<open>cs\<close> is the list of its children as every loop of the library walks it.
\<close>

fun siblings :: "heap \<Rightarrow> pointer \<Rightarrow> addr list \<Rightarrow> bool" where
  "siblings h it [] = (it = None)"
| "siblings h it (c # cs) =
     (it = Some c \<and> (case cell h c of None \<Rightarrow> False | Some v \<Rightarrow> siblings h (m_next v) cs))"

definition name_of :: "heap \<Rightarrow> addr \<Rightarrow> string" where
  "name_of h a = (case cell h a of Some v \<Rightarrow> m_name v | None \<Rightarrow> [])"



text \<open>
  \<open>child_list h p prev it cs\<close> is \<open>siblings\<close> with the back links: every node of
  \<open>cs\<close> has \<open>p\<close> as its parent and its predecessor in \<open>cs\<close> as \<open>m_prev\<close>.
  \<open>children h p cs\<close> says that \<open>cs\<close> is the well-formed list of children of the
  live node \<open>p\<close>: first and last child, length, links, distinct nodes.
\<close>

fun child_list :: "heap \<Rightarrow> addr \<Rightarrow> pointer \<Rightarrow> pointer \<Rightarrow> addr list \<Rightarrow> bool" where
  "child_list h p prev it [] = (it = None)"
| "child_list h p prev it (c # cs) =
     (it = Some c \<and>
      (case cell h c of
         None \<Rightarrow> False
       | Some v \<Rightarrow> m_parent v = Some p \<and> m_prev v = prev \<and> child_list h p (Some c) (m_next v) cs))"

definition children :: "heap \<Rightarrow> addr \<Rightarrow> addr list \<Rightarrow> bool" where
  "children h p cs =
     (case cell h p of
        None \<Rightarrow> False
      | Some t \<Rightarrow>
          child_list h p None (m_firstChild t) cs \<and>
          m_lastChild t = (if cs = [] then None else Some (last cs)) \<and>
          m_length t = int (length cs) \<and> distinct cs \<and> p \<notin> set cs)"

text \<open>
  \<open>nodes_of n h a\<close> lists the nodes that \<open>delete a\<close> visits, the node and below it
  the children from first to last, with the bound of \<open>delete_Value\<close>;
  \<open>released ns h h'\<close>: \<open>h'\<close> is \<open>h\<close> with exactly the cells \<open>ns\<close> released.
  The \<open>content\<close> of a node is its class with its data member and its own children.
\<close>

fun nodes_of :: "nat \<Rightarrow> heap \<Rightarrow> addr \<Rightarrow> addr list option"
  and nodes_of_children :: "nat \<Rightarrow> heap \<Rightarrow> pointer \<Rightarrow> addr list option" where
  "nodes_of 0 h a = None"
| "nodes_of (Suc n) h a =
     (case cell h a of
        None \<Rightarrow> None
      | Some v \<Rightarrow> map_option ((#) a) (nodes_of_children n h (m_firstChild v)))"
| "nodes_of_children 0 h it = None"
| "nodes_of_children (Suc n) h it =
     (case it of
        None \<Rightarrow> Some []
      | Some c \<Rightarrow>
          (case cell h c of
             None \<Rightarrow> None
           | Some v \<Rightarrow>
               (case nodes_of n h c of
                  None \<Rightarrow> None
                | Some xs \<Rightarrow> map_option ((@) xs) (nodes_of_children n h (m_next v)))))"

definition released :: "addr list \<Rightarrow> heap \<Rightarrow> heap \<Rightarrow> bool" where
  "released ns h h' =
     (length h' = length h \<and> (\<forall>e. cell h' e = (if e \<in> set ns then None else cell h e)))"

definition content :: "Value \<Rightarrow> Derived \<times> pointer \<times> pointer \<times> int" where
  "content v = (derived v, m_firstChild v, m_lastChild v, m_length v)"

text \<open>
  What \<open>Array::linkValueInt\<close> does at the child \<open>c\<close> where its scan stops: insert
  before it (\<open>where\<close> is 1) or take its place and delete it.
\<close>

definition link_at :: "nat \<Rightarrow> addr \<Rightarrow> addr \<Rightarrow> int \<Rightarrow> addr \<Rightarrow> pointer prog" where
  "link_at fuel this val wh c =
     (if 1 = wh then bind (insertValueBeforeInt this c val) (\<lambda>_. return (Some val))
      else bind (swapValueInt c val) (\<lambda>old. bind (delete_Value fuel old) (\<lambda>_. return (Some val))))"

text \<open>
  The library has two exception classes and tells failures apart by their message.
  The messages raised where a delimiter is required, and the message of the
  dispatch on the first character of a value:
\<close>

definition ExpectedDelimiter :: "error \<Rightarrow> bool" where
  "ExpectedDelimiter e =
     (e = JsonError ''expected ':' before object value'' \<or>
      e = JsonError ''expected '}' or ',' after object element'' \<or>
      e = JsonError ''expected ']' or ',' after array element'')"

definition UnexpectedCharacter :: "error \<Rightarrow> bool" where
  "UnexpectedCharacter e = (e = JsonError ''unexpected character'')"

text \<open>Free stores used as examples.\<close>

definition heap_object_and_array :: heap where
  "heap_object_and_array =
     [Some ((Value_init [] Object)\<lparr>m_firstChild := Some 2, m_lastChild := Some 2, m_length := 1\<rparr>),
      Some ((Value_init [] Array)\<lparr>m_firstChild := Some 3, m_lastChild := Some 3, m_length := 1\<rparr>),
      Some ((Value_init ''a'' (Number (Double False 1)))\<lparr>m_parent := Some 0\<rparr>),
      Some ((Value_init [] (Number (Double False 1)))\<lparr>m_parent := Some 1\<rparr>)]"

definition heap_array_of_three :: heap where
  "heap_array_of_three =
     [Some ((Value_init [] Array)\<lparr>m_firstChild := Some 1, m_lastChild := Some 3, m_length := 3\<rparr>),
      Some ((Value_init [] (Number (Double False 1)))\<lparr>m_parent := Some 0, m_next := Some 2\<rparr>),
      Some ((Value_init [] (Number (Double False 2)))\<lparr>m_parent := Some 0, m_prev := Some 1, m_next := Some 3\<rparr>),
      Some ((Value_init [] (Number (Double False 3)))\<lparr>m_parent := Some 0, m_prev := Some 2\<rparr>),
      Some (Value_init [] (Number (Double False 9)))]"

definition heap_root_with_array :: heap where
  "heap_root_with_array =
     [Some ((Value_init [] Root)\<lparr>m_firstChild := Some 1, m_lastChild := Some 1, m_length := 1\<rparr>),
      Some ((Value_init [] Array)\<lparr>m_parent := Some 0\<rparr>)]"

definition heap_root_with_object :: heap where
  "heap_root_with_object =
     [Some ((Value_init [] Root)\<lparr>m_firstChild := Some 1, m_lastChild := Some 1, m_length := 1\<rparr>),
      Some ((Value_init [] Object)\<lparr>m_parent := Some 0\<rparr>)]"


definition heap_a_b_and_number :: heap where
  "heap_a_b_and_number =
     [Some ((Value_init [] Root)\<lparr>m_firstChild := Some 1, m_lastChild := Some 1, m_length := 1\<rparr>),
      Some ((Value_init [] Object)\<lparr>m_parent := Some 0, m_firstChild := Some 2, m_lastChild := Some 3, m_length := 2\<rparr>),
      Some ((Value_init ''a'' (Number (Double False 1)))\<lparr>m_parent := Some 1, m_next := Some 3\<rparr>),
      Some ((Value_init ''b'' (Number (Double False 2)))\<lparr>m_parent := Some 1, m_prev := Some 2\<rparr>),
      Some (Value_init [] (Number (Double False 3)))]"

definition heap_a_replaced :: heap where
  "heap_a_replaced =
     [Some ((Value_init [] Root)\<lparr>m_firstChild := Some 1, m_lastChild := Some 1, m_length := 1\<rparr>),
      Some ((Value_init [] Object)\<lparr>m_parent := Some 0, m_firstChild := Some 4, m_lastChild := Some 3, m_length := 2\<rparr>),
      None,
      Some ((Value_init ''b'' (Number (Double False 2)))\<lparr>m_parent := Some 1, m_prev := Some 4\<rparr>),
      Some ((Value_init ''a'' (Number (Double False 3)))\<lparr>m_parent := Some 1, m_next := Some 3\<rparr>)]"

definition heap_sum_in_array :: heap where
  "heap_sum_in_array =
     [Some ((Value_init [] Root)\<lparr>m_firstChild := Some 1, m_lastChild := Some 1, m_length := 1\<rparr>),
      Some ((Value_init [] Array)\<lparr>m_parent := Some 0, m_firstChild := Some 2, m_lastChild := Some 2, m_length := 1\<rparr>),
      Some ((Value_init [] (Number (Double False (5404319552844596 / 18014398509481984))))\<lparr>m_parent := Some 1\<rparr>)]"

definition heap_sum_reparsed :: heap where
  "heap_sum_reparsed =
     [Some ((Value_init [] Root)\<lparr>m_firstChild := Some 1, m_lastChild := Some 1, m_length := 1\<rparr>),
      Some ((Value_init [] Array)\<lparr>m_parent := Some 0, m_firstChild := Some 2, m_lastChild := Some 2, m_length := 1\<rparr>),
      Some ((Value_init [] (Number (Double False (5404319552844595 / 18014398509481984))))\<lparr>m_parent := Some 1\<rparr>)]"

section \<open>Basic facts\<close>

declare ipow.simps [simp del]
declare bit_length.simps [simp del]
declare Array_getValue_loop.simps [simp del]
declare Array_linkValueInt_loop.simps [simp del]
declare Array_removeValue_loop.simps [simp del]
declare parse_string_loop.simps [simp del]
declare decimal.simps [simp del]
declare printEscapedString_loop.simps [simp del]

lemma bind_return [simp]: "bind (return x) f h = f x h"
  by (simp add: bind_def return_def)

lemma bind_throw [simp]: "bind (throw e) f h = throw e h"
  by (simp add: bind_def throw_def)

lemma load_live [simp]: "cell h a = Some v \<Longrightarrow> load (Some a) h = return v h"
  by (simp add: load_def return_def)

lemma bind_load_live [simp]: "cell h a = Some v \<Longrightarrow> bind (load (Some a)) f h = f v h"
  by (simp add: bind_def load_def)

lemma bind_store_live [simp]:
  "cell h a = Some v \<Longrightarrow> bind (store (Some a) g) f h = f () (h[a := Some (g v)])"
  by (simp add: bind_def store_def)

subsection \<open>Cells, appending a new node, deleting\<close>

lemma cell_update:
  "cell h a = Some v \<Longrightarrow> cell (h[a := x]) b = (if b = a then x else cell h b)"
  by (auto simp: cell_def split: if_splits)








subsection \<open>The scans over the children\<close>

lemma Object_removeValue_loop_absent:
  "siblings h it cs \<Longrightarrow> name \<notin> set (map (name_of h) cs) \<Longrightarrow> length cs < fuel \<Longrightarrow>
   Object_removeValue_loop fuel this name it h = Some (Inr (), h)"
proof (induction cs arbitrary: it fuel)
  case Nil
  then obtain n where "fuel = Suc n" by (cases fuel) auto
  with Nil show ?case by (simp add: return_def)
next
  case (Cons c cs)
  then obtain n where n: "fuel = Suc n" by (cases fuel) auto
  from Cons.prems obtain v where v: "it = Some c" "cell h c = Some v" "siblings h (m_next v) cs"
    by (auto split: option.splits)
  from Cons.prems v have "m_name v \<noteq> name" by (auto simp: name_of_def)
  moreover have "Object_removeValue_loop n this name (m_next v) h = Some (Inr (), h)"
    using Cons.IH [OF v(3)] Cons.prems n by simp
  ultimately show ?case using v n by simp
qed

lemma Array_removeValue_loop_scan:
  "siblings h it cs \<Longrightarrow>
   Array_removeValue_loop fuel this position i it h =
     (if cs \<noteq> [] \<and> position - i < int (length cs)
      then bind (removeValueInt this (cs ! nat (position - i))) (delete_Value fuel) h
      else throw (JsonNull ''index out of range'') h)"
proof (induction cs arbitrary: it i)
  case Nil
  then show ?case by (subst Array_removeValue_loop.simps) simp
next
  case (Cons c cs)
  from Cons.prems obtain v where v: "it = Some c" "cell h c = Some v" "siblings h (m_next v) cs"
    by (auto split: option.splits)
  show ?case
  proof (cases "i \<ge> position")
    case True
    then have "nat (position - i) = 0" by simp
    with True v show ?thesis
      by (subst Array_removeValue_loop.simps) (simp add: return_def)
  next
    case False
    then have nz: "nat (position - i) = Suc (nat (position - (i + 1)))" by simp
    have "Array_removeValue_loop fuel this position i it h =
          Array_removeValue_loop fuel this position (i + 1) (m_next v) h"
      using False v by (subst Array_removeValue_loop.simps) (simp add: return_def)
    also have "\<dots> = (if cs \<noteq> [] \<and> position - (i + 1) < int (length cs)
      then bind (removeValueInt this (cs ! nat (position - (i + 1)))) (delete_Value fuel) h
      else throw (JsonNull ''index out of range'') h)"
      by (rule Cons.IH [OF v(3)])
    finally show ?thesis using False nz by (cases cs) auto
  qed
qed

lemma Array_getValue_loop_scan:
  "siblings h it cs \<Longrightarrow>
   Array_getValue_loop idx i it h =
     (if cs \<noteq> [] \<and> idx - i < int (length cs) then return (cs ! nat (idx - i)) h
      else throw (JsonNull ''index out of range'') h)"
proof (induction cs arbitrary: it i)
  case Nil
  then show ?case by (subst Array_getValue_loop.simps) simp
next
  case (Cons c cs)
  from Cons.prems obtain v where v: "it = Some c" "cell h c = Some v" "siblings h (m_next v) cs"
    by (auto split: option.splits)
  show ?case
  proof (cases "i \<ge> idx")
    case True
    then have "nat (idx - i) = 0" by simp
    with True v show ?thesis
      by (subst Array_getValue_loop.simps) (simp add: return_def)
  next
    case False
    then have nz: "nat (idx - i) = Suc (nat (idx - (i + 1)))" by simp
    have "Array_getValue_loop idx i it h = Array_getValue_loop idx (i + 1) (m_next v) h"
      using False v by (subst Array_getValue_loop.simps) (simp add: return_def)
    also have "\<dots> = (if cs \<noteq> [] \<and> idx - (i + 1) < int (length cs)
      then return (cs ! nat (idx - (i + 1))) h
      else throw (JsonNull ''index out of range'') h)"
      by (rule Cons.IH [OF v(3)])
    finally show ?thesis using False nz by (cases cs) auto
  qed
qed

lemma Array_linkValueInt_loop_scan:
  "siblings h it cs \<Longrightarrow>
   Array_linkValueInt_loop fuel this val position wh i it h =
     (if cs \<noteq> [] \<and> position - i < int (length cs)
      then link_at fuel this val wh (cs ! nat (position - i)) h
      else throw (JsonNull ''index out of range'') h)"
proof (induction cs arbitrary: it i)
  case Nil
  then show ?case by (subst Array_linkValueInt_loop.simps) simp
next
  case (Cons c cs)
  from Cons.prems obtain v where v: "it = Some c" "cell h c = Some v" "siblings h (m_next v) cs"
    by (auto split: option.splits)
  show ?case
  proof (cases "i \<ge> position")
    case True
    then have "nat (position - i) = 0" by simp
    with True v show ?thesis
      by (subst Array_linkValueInt_loop.simps) (simp add: return_def link_at_def)
  next
    case False
    then have nz: "nat (position - i) = Suc (nat (position - (i + 1)))" by simp
    have "Array_linkValueInt_loop fuel this val position wh i it h =
          Array_linkValueInt_loop fuel this val position wh (i + 1) (m_next v) h"
      using False v by (subst Array_linkValueInt_loop.simps) (simp add: return_def)
    also have "\<dots> = (if cs \<noteq> [] \<and> position - (i + 1) < int (length cs)
      then link_at fuel this val wh (cs ! nat (position - (i + 1))) h
      else throw (JsonNull ''index out of range'') h)"
      by (rule Cons.IH [OF v(3)])
    finally show ?thesis using False nz by (cases cs) auto
  qed
qed

subsection \<open>Replacing a child of an object\<close>

lemma swapValueInt_effect:
  assumes "cell h c = Some vc" "cell h val = Some x" "cell h p = Some t" "m_parent vc = Some p"
    and "val \<noteq> c" "p \<noteq> c" "p \<noteq> val"
    and "case m_prev vc of None \<Rightarrow> True
         | Some a \<Rightarrow> cell h a \<noteq> None \<and> a \<noteq> c \<and> a \<noteq> val \<and> a \<noteq> p"
    and "case m_next vc of None \<Rightarrow> True
         | Some b \<Rightarrow> cell h b \<noteq> None \<and> b \<noteq> c \<and> b \<noteq> val \<and> b \<noteq> p \<and> Some b \<noteq> m_prev vc"
  shows "\<exists>h2. swapValueInt c val h = Some (Inr c, h2) \<and> length h2 = length h \<and>
      cell h2 val = Some (x\<lparr>m_parent := Some p, m_next := m_next vc, m_prev := m_prev vc\<rparr>) \<and>
      cell h2 c = Some vc \<and>
      cell h2 p = Some (t\<lparr>m_firstChild := (if m_prev vc = None then Some val else m_firstChild t),
                           m_lastChild := (if m_next vc = None then Some val else m_lastChild t)\<rparr>) \<and>
      (\<forall>a u. m_prev vc = Some a \<longrightarrow> cell h a = Some u \<longrightarrow> cell h2 a = Some (u\<lparr>m_next := Some val\<rparr>)) \<and>
      (\<forall>b u. m_next vc = Some b \<longrightarrow> cell h b = Some u \<longrightarrow> cell h2 b = Some (u\<lparr>m_prev := Some val\<rparr>)) \<and>
      (\<forall>e. e \<noteq> val \<longrightarrow> e \<noteq> p \<longrightarrow> Some e \<noteq> m_prev vc \<longrightarrow> Some e \<noteq> m_next vc \<longrightarrow>
         cell h2 e = cell h e)"
proof (cases "m_prev vc")
  case None
  note pv = this
  show ?thesis
  proof (cases "m_next vc")
    case None
    with pv assms show ?thesis
      by (auto simp: swapValueInt_def cell_update return_def)
  next
    case (Some b)
    with pv assms show ?thesis
      by (auto simp: swapValueInt_def cell_update return_def)
  qed
next
  case (Some a)
  note pv = this
  show ?thesis
  proof (cases "m_next vc")
    case None
    with pv assms show ?thesis
      by (auto simp: swapValueInt_def cell_update return_def)
  next
    case (Some b)
    with pv assms show ?thesis
      by (auto simp: swapValueInt_def cell_update return_def)
  qed
qed

lemma child_list_cong:
  assumes "\<And>a. a \<in> set cs \<Longrightarrow> \<exists>u u2. cell h a = Some u \<and> cell h2 a = Some u2 \<and>
             m_parent u2 = m_parent u \<and> m_prev u2 = m_prev u \<and> m_next u2 = m_next u"
  shows "child_list h p prev it cs \<Longrightarrow> child_list h2 p prev it cs"
  using assms
proof (induction cs arbitrary: prev it)
  case Nil
  then show ?case by simp
next
  case (Cons c cs)
  from Cons.prems(2) [of c] obtain u u2 where u: "cell h c = Some u" "cell h2 c = Some u2"
    "m_parent u2 = m_parent u" "m_prev u2 = m_prev u" "m_next u2 = m_next u"
    by auto
  with Cons.prems(1) have "child_list h p (Some c) (m_next u) cs" by simp
  then have "child_list h2 p (Some c) (m_next u) cs"
    using Cons.prems(2) by (intro Cons.IH) auto
  with u Cons.prems(1) show ?case by simp
qed

lemma child_list_live:
  "child_list h p prev it cs \<Longrightarrow> a \<in> set cs \<Longrightarrow> \<exists>u. cell h a = Some u \<and> m_parent u = Some p"
  by (induction cs arbitrary: prev it) (auto split: option.splits)

lemma child_list_siblings: "child_list h p prev it cs \<Longrightarrow> siblings h it cs"
  by (induction cs arbitrary: prev it) (auto split: option.splits)

lemma child_list_mid:
  assumes "child_list h p prev it (pre @ c # post)" and "cell h c = Some vc"
  shows "m_prev vc = (if pre = [] then prev else Some (last pre)) \<and>
         m_next vc = (if post = [] then None else Some (hd post)) \<and> m_parent vc = Some p"
  using assms
proof (induction pre arbitrary: prev it)
  case Nil
  then have c: "m_parent vc = Some p" "m_prev vc = prev" "child_list h p (Some c) (m_next vc) post"
    by simp_all
  from c(3) have "m_next vc = (if post = [] then None else Some (hd post))"
    by (cases post) simp_all
  with c show ?case by simp
next
  case (Cons a pre)
  from Cons.prems(1) obtain u where "cell h a = Some u"
    "child_list h p (Some a) (m_next u) (pre @ c # post)"
    by (cases "cell h a") simp_all
  from Cons.IH [OF this(2) Cons.prems(2)] show ?case by simp
qed

lemma child_list_after:
  assumes cl: "child_list h p (Some c) nx post" and d: "distinct post"
    and nextn: "\<And>b u. nx = Some b \<Longrightarrow> cell h b = Some u \<Longrightarrow> cell h2 b = Some (u\<lparr>m_prev := Some val\<rparr>)"
    and other: "\<And>e. e \<in> set post \<Longrightarrow> Some e \<noteq> nx \<Longrightarrow> cell h2 e = cell h e"
  shows "child_list h2 p (Some val) nx post"
proof (cases post)
  case Nil
  with cl show ?thesis by simp
next
  case (Cons b post')
  with cl obtain u where u: "nx = Some b" "cell h b = Some u" "m_parent u = Some p"
    "child_list h p (Some b) (m_next u) post'"
    by (auto split: option.splits)
  have "child_list h2 p (Some b) (m_next u) post'"
  proof (rule child_list_cong [OF _ u(4)])
    fix a assume a: "a \<in> set post'"
    with d Cons u(1) have "Some a \<noteq> nx" by auto
    with other [of a] a Cons have "cell h2 a = cell h a" by simp
    with child_list_live [OF u(4) a]
    show "\<exists>u u2. cell h a = Some u \<and> cell h2 a = Some u2 \<and>
             m_parent u2 = m_parent u \<and> m_prev u2 = m_prev u \<and> m_next u2 = m_next u"
      by auto
  qed
  with u nextn [OF u(1,2)] Cons show ?thesis by simp
qed

lemma child_list_replace:
  assumes cl: "child_list h p prev it (pre @ c # post)" and d: "distinct (pre @ c # post)"
    and pr: "\<And>a. prev = Some a \<Longrightarrow> a \<notin> set (pre @ c # post)"
    and vc: "cell h c = Some vc"
    and hv: "cell h2 val = Some w" "m_parent w = Some p" "m_prev w = m_prev vc" "m_next w = m_next vc"
    and prevn: "\<And>a u. m_prev vc = Some a \<Longrightarrow> cell h a = Some u \<Longrightarrow>
                  cell h2 a = Some (u\<lparr>m_next := Some val\<rparr>)"
    and nextn: "\<And>b u. m_next vc = Some b \<Longrightarrow> cell h b = Some u \<Longrightarrow>
                  cell h2 b = Some (u\<lparr>m_prev := Some val\<rparr>)"
    and other: "\<And>e. e \<in> set pre \<union> set post \<Longrightarrow> Some e \<noteq> m_prev vc \<Longrightarrow> Some e \<noteq> m_next vc \<Longrightarrow>
                  cell h2 e = cell h e"
  shows "child_list h2 p prev (if pre = [] then Some val else it) (pre @ val # post)"
  using cl d pr other
proof (induction pre arbitrary: prev it)
  case Nil
  from Nil.prems(1) vc have c: "it = Some c" "m_parent vc = Some p" "m_prev vc = prev"
    "child_list h p (Some c) (m_next vc) post"
    by auto
  have "child_list h2 p (Some val) (m_next vc) post"
  proof (rule child_list_after [OF c(4)])
    show "distinct post" using Nil.prems(2) by simp
  next
    fix b u assume "m_next vc = Some b" "cell h b = Some u"
    then show "cell h2 b = Some (u\<lparr>m_prev := Some val\<rparr>)" by (rule nextn)
  next
    fix e assume e: "e \<in> set post" "Some e \<noteq> m_next vc"
    with Nil.prems(3) [of e] c(3) have "Some e \<noteq> m_prev vc" by auto
    with e Nil.prems(4) [of e] show "cell h2 e = cell h e" by simp
  qed
  with hv c show ?case by simp
next
  case (Cons a pre)
  from Cons.prems(1) obtain u where u: "it = Some a" "cell h a = Some u" "m_parent u = Some p"
    "m_prev u = prev" "child_list h p (Some a) (m_next u) (pre @ c # post)"
    by (auto split: option.splits)
  note mid = child_list_mid [OF u(5) vc]
  have IH: "child_list h2 p (Some a) (if pre = [] then Some val else m_next u) (pre @ val # post)"
  proof (rule Cons.IH [OF u(5)])
    show "distinct (pre @ c # post)" using Cons.prems(2) by simp
  next
    fix a' assume "Some a = Some a'"
    then show "a' \<notin> set (pre @ c # post)" using Cons.prems(2) by auto
  next
    fix e assume "e \<in> set pre \<union> set post" "Some e \<noteq> m_prev vc" "Some e \<noteq> m_next vc"
    then show "cell h2 e = cell h e" using Cons.prems(4) [of e] by simp
  qed
  show ?case
  proof (cases "pre = []")
    case True
    with mid have "m_prev vc = Some a" by simp
    from prevn [OF this u(2)] have "cell h2 a = Some (u\<lparr>m_next := Some val\<rparr>)" .
    with IH True u show ?thesis by simp
  next
    case False
    with mid Cons.prems(2) have "Some a \<noteq> m_prev vc" by auto
    moreover from mid Cons.prems(2) have "Some a \<noteq> m_next vc" by (cases post) auto
    ultimately have "cell h2 a = cell h a" using Cons.prems(4) [of a] by simp
    with IH False u show ?thesis by simp
  qed
qed

lemma nodes_of_frame:
  "nodes_of n h a = Some ns \<Longrightarrow> (\<And>e. e \<in> set ns \<Longrightarrow> cell h2 e = cell h e) \<Longrightarrow>
     nodes_of n h2 a = Some ns"
  "nodes_of_children n h it = Some ms \<Longrightarrow> (\<And>e. e \<in> set ms \<Longrightarrow> cell h2 e = cell h e) \<Longrightarrow>
     nodes_of_children n h2 it = Some ms"
proof (induction n arbitrary: a ns it ms)
  case 0
  { case 1 then show ?case by simp }
  { case 2 then show ?case by simp }
next
  case (Suc n)
  {
    case 1
    from 1(1) obtain v ks where v: "cell h a = Some v"
      "nodes_of_children n h (m_firstChild v) = Some ks" "ns = a # ks"
      by (cases "cell h a") auto
    from 1(2) v(3) have "cell h2 a = cell h a" by simp
    moreover have "nodes_of_children n h2 (m_firstChild v) = Some ks"
      using Suc.IH(2) [OF v(2)] 1(2) v(3) by simp
    ultimately show ?case using v by simp
  }
  {
    case 2
    show ?case
    proof (cases it)
      case None
      with 2(1) show ?thesis by simp
    next
      case (Some c)
      with 2(1) obtain v xs ys where v: "cell h c = Some v" "nodes_of n h c = Some xs"
        "nodes_of_children n h (m_next v) = Some ys" "ms = xs @ ys"
        by (cases "cell h c"; cases "nodes_of n h c") auto
      from v(2) have "c \<in> set xs" by (cases n) (auto split: option.splits)
      with 2(2) v(4) have "cell h2 c = cell h c" by simp
      moreover have "nodes_of n h2 c = Some xs"
        using Suc.IH(1) [OF v(2)] 2(2) v(4) by simp
      moreover have "nodes_of_children n h2 (m_next v) = Some ys"
        using Suc.IH(2) [OF v(3)] 2(2) v(4) by simp
      ultimately show ?thesis using v Some by simp
    qed
  }
qed

lemma released_trans:
  "released xs h h1 \<Longrightarrow> released ys h1 h2 \<Longrightarrow> released (xs @ ys) h h2"
  by (auto simp: released_def)

lemma delete_releases:
  "nodes_of n h a = Some ns \<Longrightarrow> distinct ns \<Longrightarrow>
     \<exists>h1. delete_Value n a h = Some (Inr (), h1) \<and> released ns h h1"
  "nodes_of_children n h it = Some ms \<Longrightarrow> distinct ms \<Longrightarrow>
     \<exists>h1. delete_children n it h = Some (Inr (), h1) \<and> released ms h h1"
proof (induction n arbitrary: a ns it ms h)
  case 0
  { case 1 then show ?case by simp }
  { case 2 then show ?case by simp }
next
  case (Suc n)
  {
    case 1
    from 1(1) obtain v ks where v: "cell h a = Some v"
      "nodes_of_children n h (m_firstChild v) = Some ks" "ns = a # ks"
      by (cases "cell h a") auto
    with 1(2) have d: "distinct ks" "a \<notin> set ks" by simp_all
    from Suc.IH(2) [OF v(2) d(1)] obtain h1
      where h1: "delete_children n (m_firstChild v) h = Some (Inr (), h1)" "released ks h h1"
      by blast
    from h1(2) d(2) v(1) have a1: "cell h1 a = Some v" by (simp add: released_def)
    then have "free a h1 = Some (Inr (), h1[a := None])" by (simp add: free_def)
    moreover have "released ns h (h1[a := None])"
      using h1(2) a1 v(3) by (auto simp: released_def cell_update)
    ultimately show ?case using v(1) h1(1) by (simp add: bind_def return_def)
  }
  {
    case 2
    show ?case
    proof (cases it)
      case None
      with 2(1) show ?thesis by (simp add: return_def released_def)
    next
      case (Some c)
      with 2(1) obtain v xs ys where v: "cell h c = Some v" "nodes_of n h c = Some xs"
        "nodes_of_children n h (m_next v) = Some ys" "ms = xs @ ys"
        by (cases "cell h c"; cases "nodes_of n h c") auto
      with 2(2) have d: "distinct xs" "distinct ys" "set xs \<inter> set ys = {}" by simp_all
      from Suc.IH(1) [OF v(2) d(1)] obtain h1
        where h1: "delete_Value n c h = Some (Inr (), h1)" "released xs h h1"
        by blast
      have "nodes_of_children n h1 (m_next v) = Some ys"
      proof (rule nodes_of_frame(2) [OF v(3)])
        fix e assume "e \<in> set ys"
        with d(3) have "e \<notin> set xs" by auto
        with h1(2) show "cell h1 e = cell h e" by (simp add: released_def)
      qed
      from Suc.IH(2) [OF this d(2)] obtain h2
        where h2: "delete_children n (m_next v) h1 = Some (Inr (), h2)" "released ys h1 h2"
        by blast
      from released_trans [OF h1(2) h2(2)] v(4) have "released ms h h2" by simp
      with v(1) h1(1) h2(1) Some show ?thesis by (simp add: bind_def return_def)
    qed
  }
qed

lemma Object_linkValue_loop_skip:
  "siblings h it (pre @ c # post) \<Longrightarrow> name \<notin> set (map (name_of h) pre) \<Longrightarrow>
   Object_linkValue_loop (length pre + n) this name val it h =
   Object_linkValue_loop n this name val (Some c) h"
proof (induction pre arbitrary: it)
  case Nil
  then show ?case by simp
next
  case (Cons a pre)
  from Cons.prems(1) obtain u where u: "it = Some a" "cell h a = Some u"
    "siblings h (m_next u) (pre @ c # post)"
    by (cases "cell h a") simp_all
  from Cons.prems(2) u(2) have "m_name u \<noteq> name" by (auto simp: name_of_def)
  with u Cons.IH [OF u(3)] Cons.prems(2) show ?case by simp
qed

lemma children_frame:
  assumes "children h p cs" and "cell h2 p = cell h p"
    and "\<And>e. e \<in> set cs \<Longrightarrow> cell h2 e = cell h e"
  shows "children h2 p cs"
proof -
  from assms(1) obtain t where t: "cell h p = Some t" "child_list h p None (m_firstChild t) cs"
    by (auto simp: children_def split: option.splits)
  have "child_list h2 p None (m_firstChild t) cs"
  proof (rule child_list_cong [OF _ t(2)])
    fix a assume a: "a \<in> set cs"
    from child_list_live [OF t(2) a] assms(3) [OF a]
    show "\<exists>u u2. cell h a = Some u \<and> cell h2 a = Some u2 \<and>
             m_parent u2 = m_parent u \<and> m_prev u2 = m_prev u \<and> m_next u2 = m_next u"
      by auto
  qed
  with assms(1,2) t(1) show ?thesis by (simp add: children_def)
qed

lemma Object_linkValue_replaces:
  assumes ch: "children h this cs"
    and x: "cell h val = Some x" and vcs: "val \<notin> set cs" and vthis: "val \<noteq> this"
    and i: "i < length cs" and nm: "name_of h (cs ! i) = name"
    and first: "name \<notin> set (map (name_of h) (take i cs))"
    and ns: "nodes_of k h (cs ! i) = Some ns" and dns: "distinct ns"
    and own: "set ns \<inter> insert this (insert val (set cs)) = {cs ! i}"
  shows "\<exists>h'. Object_linkValue (Suc (i + k)) this name (Some val) h = Some (Inr (Some val), h') \<and>
           Object_linkValueSafe (Suc (i + k)) this name (Some val) h = Some (Inr (), h') \<and>
           children h' this (cs[i := val]) \<and>
           (\<exists>w. cell h' val = Some w \<and> m_name w = name \<and> content w = content x) \<and>
           (\<forall>c \<in> set cs. c \<noteq> cs ! i \<longrightarrow>
              (\<exists>u u'. cell h c = Some u \<and> cell h' c = Some u' \<and>
                 m_name u' = m_name u \<and> content u' = content u)) \<and>
           (\<forall>e \<in> set ns. cell h' e = None) \<and>
           (\<forall>e. e \<notin> set ns \<longrightarrow> e \<notin> insert this (insert val (set cs)) \<longrightarrow> cell h' e = cell h e)"
proof -
  define pre where "pre = take i cs"
  define c where "c = cs ! i"
  define post where "post = drop (Suc i) cs"
  have cs: "cs = pre @ c # post"
    using i by (simp add: pre_def c_def post_def id_take_nth_drop)
  have upd: "cs[i := val] = pre @ val # post"
    using i by (simp add: pre_def post_def upd_conv_take_nth_drop)
  from ch obtain t where t: "cell h this = Some t"
    and cl: "child_list h this None (m_firstChild t) cs"
    and lastc: "m_lastChild t = Some (last cs)" and len: "m_length t = int (length cs)"
    and dcs: "distinct cs" and tcs: "this \<notin> set cs"
    using i by (auto simp: children_def split: option.splits if_splits)
  from child_list_live [OF cl, of c] cs obtain vc where vc: "cell h c = Some vc"
    by auto
  from child_list_mid [OF cl [unfolded cs] vc]
  have mid: "m_prev vc = (if pre = [] then None else Some (last pre))"
    "m_next vc = (if post = [] then None else Some (hd post))" "m_parent vc = Some this"
    by simp_all
  have cne: "c \<noteq> val" "c \<noteq> this" "c \<in> set cs" using vcs tcs cs by auto
  note own' = own [folded c_def]
  have ci: "cs ! i = c" by (simp add: c_def)
  have live: "\<exists>u. cell h e = Some u" if "e \<in> set cs" for e
    using child_list_live [OF cl that] by auto

  text \<open>The scan stops at \<open>c\<close>.\<close>
  have name_c: "m_name vc = name" using nm vc by (simp add: name_of_def ci)
  have scan: "Object_linkValue (Suc (i + k)) this name (Some val) h =
      bind (setName val name) (\<lambda>_.
      bind (swapValueInt c val) (\<lambda>old.
      bind (delete_Value k old) (\<lambda>_.
      return (Some val)))) h"
  proof -
    have "length pre = i" using i by (simp add: pre_def)
    then have "Suc (i + k) = length pre + Suc k" by simp
    moreover have "siblings h (m_firstChild t) (pre @ c # post)"
      using child_list_siblings [OF cl] cs by simp
    moreover have "name \<notin> set (map (name_of h) pre)" using first by (simp add: pre_def)
    ultimately have "Object_linkValue_loop (Suc (i + k)) this name val (m_firstChild t) h =
        Object_linkValue_loop (Suc k) this name val (Some c) h"
      using Object_linkValue_loop_skip [of h "m_firstChild t" pre c post name "Suc k" this val]
      by simp
    then show ?thesis
      using x t vc name_c by (simp add: Object_linkValue_def discard_def)
  qed

  text \<open>\<open>setName\<close>.\<close>
  define x1 where "x1 = x\<lparr>m_name := name\<rparr>"
  define h1 where "h1 = h[val := Some x1]"
  have h1: "cell h1 e = (if e = val then Some x1 else cell h e)" for e
    using x by (simp add: h1_def cell_update)
  have s1: "setName val name h = Some (Inr (), h1)"
    using x by (simp add: setName_def store_def h1_def x1_def)

  text \<open>\<open>swapValueInt\<close>.\<close>
  have pv: "case m_prev vc of None \<Rightarrow> True
      | Some a \<Rightarrow> cell h1 a \<noteq> None \<and> a \<noteq> c \<and> a \<noteq> val \<and> a \<noteq> this"
  proof (cases "pre = []")
    case True
    with mid show ?thesis by simp
  next
    case False
    then have "last pre \<in> set pre" by simp
    with cs dcs vcs tcs live [of "last pre"] mid False show ?thesis
      by (auto simp: h1)
  qed
  have nx: "case m_next vc of None \<Rightarrow> True
      | Some b \<Rightarrow> cell h1 b \<noteq> None \<and> b \<noteq> c \<and> b \<noteq> val \<and> b \<noteq> this \<and> Some b \<noteq> m_prev vc"
  proof (cases "post = []")
    case True
    with mid show ?thesis by simp
  next
    case False
    then have hp: "hd post \<in> set post" by simp
    have "Some (hd post) \<noteq> m_prev vc"
    proof (cases "pre = []")
      case True
      with mid show ?thesis by simp
    next
      case nonempty: False
      then have "last pre \<in> set pre" by simp
      with hp cs dcs have "hd post \<noteq> last pre" by auto
      with mid nonempty show ?thesis by simp
    qed
    with hp cs dcs vcs tcs live [of "hd post"] mid(2) False show ?thesis
      by (auto simp: h1)
  qed
  from swapValueInt_effect [of h1 c vc val x1 this t, OF _ _ _ mid(3) _ _ _ pv nx]
    vc t cne vthis
  obtain h2 where h2: "swapValueInt c val h1 = Some (Inr c, h2)" "length h2 = length h1"
    "cell h2 val = Some (x1\<lparr>m_parent := Some this, m_next := m_next vc, m_prev := m_prev vc\<rparr>)"
    "cell h2 c = Some vc"
    "cell h2 this = Some (t\<lparr>m_firstChild := (if m_prev vc = None then Some val else m_firstChild t),
                           m_lastChild := (if m_next vc = None then Some val else m_lastChild t)\<rparr>)"
    "\<And>a u. m_prev vc = Some a \<Longrightarrow> cell h1 a = Some u \<Longrightarrow> cell h2 a = Some (u\<lparr>m_next := Some val\<rparr>)"
    "\<And>b u. m_next vc = Some b \<Longrightarrow> cell h1 b = Some u \<Longrightarrow> cell h2 b = Some (u\<lparr>m_prev := Some val\<rparr>)"
    "\<And>e. e \<noteq> val \<Longrightarrow> e \<noteq> this \<Longrightarrow> Some e \<noteq> m_prev vc \<Longrightarrow> Some e \<noteq> m_next vc \<Longrightarrow>
         cell h2 e = cell h1 e"
    by (auto simp: h1)
  have nb: "a \<in> set cs" if "m_prev vc = Some a \<or> m_next vc = Some a" for a
  proof -
    have "pre \<noteq> [] \<Longrightarrow> last pre \<in> set pre" "post \<noteq> [] \<Longrightarrow> hd post \<in> set post" by simp_all
    with that mid cs show ?thesis by (auto split: if_splits)
  qed
  have outside: "cell h2 e = cell h e" if "e \<notin> insert this (insert val (set cs))" for e
  proof -
    from that nb [of e] have "Some e \<noteq> m_prev vc" "Some e \<noteq> m_next vc" by auto
    with that h2(8) [of e] show ?thesis by (simp add: h1)
  qed

  text \<open>The object's list of children after the swap.\<close>
  have cl2: "child_list h2 this None (if pre = [] then Some val else m_firstChild t) (pre @ val # post)"
  proof (rule child_list_replace [OF cl [unfolded cs] dcs [unfolded cs] _ vc h2(3)])
    fix a u assume "m_prev vc = Some a" "cell h a = Some u"
    moreover from this nb [of a] vcs have "a \<noteq> val" by auto
    ultimately show "cell h2 a = Some (u\<lparr>m_next := Some val\<rparr>)"
      using h2(6) [of a u] by (simp add: h1)
  next
    fix b u assume "m_next vc = Some b" "cell h b = Some u"
    moreover from this nb [of b] vcs have "b \<noteq> val" by auto
    ultimately show "cell h2 b = Some (u\<lparr>m_prev := Some val\<rparr>)"
      using h2(7) [of b u] by (simp add: h1)
  next
    fix e assume "e \<in> set pre \<union> set post" "Some e \<noteq> m_prev vc" "Some e \<noteq> m_next vc"
    moreover from this cs vcs tcs have "e \<noteq> val" "e \<noteq> this" by auto
    ultimately show "cell h2 e = cell h e" using h2(8) [of e] by (simp add: h1)
  qed simp_all
  have ch2: "children h2 this (pre @ val # post)"
  proof -
    have "distinct (pre @ val # post)" "this \<notin> set (pre @ val # post)"
      using dcs vcs tcs vthis cs by auto
    moreover have "(if m_next vc = None then Some val else m_lastChild t) =
        Some (last (pre @ val # post))"
      using mid lastc cs by simp
    moreover have "(if m_prev vc = None then Some val else m_firstChild t) =
        (if pre = [] then Some val else m_firstChild t)"
      using mid by simp
    ultimately show ?thesis
      using cl2 h2(5) len cs by (simp add: children_def)
  qed

  text \<open>Deleting the old child releases its subtree and nothing else.\<close>
  have "nodes_of k h2 c = Some ns"
  proof (rule nodes_of_frame(1) [OF ns [folded c_def]])
    fix e assume e: "e \<in> set ns"
    show "cell h2 e = cell h e"
    proof (cases "e = c")
      case True
      with h2(4) vc show ?thesis by simp
    next
      case False
      with e own' have "e \<notin> insert this (insert val (set cs))" by auto
      then show ?thesis by (rule outside)
    qed
  qed
  from delete_releases(1) [OF this dns] obtain h3
    where h3: "delete_Value k c h2 = Some (Inr (), h3)" "released ns h2 h3"
    by blast
  have keep: "cell h3 e = cell h2 e" if "e \<in> insert this (insert val (set (pre @ val # post)))" for e
  proof -
    have "e \<noteq> c" using that cs dcs cne by auto
    moreover have "e \<in> insert this (insert val (set cs))" using that cs by auto
    ultimately have "e \<notin> set ns" using own' by auto
    with h3(2) show ?thesis by (simp add: released_def)
  qed
  have ch3: "children h3 this (cs[i := val])"
    unfolding upd by (rule children_frame [OF ch2]) (simp_all add: keep)

  have res: "Object_linkValue (Suc (i + k)) this name (Some val) h = Some (Inr (Some val), h3)"
    using scan s1 h2(1) h3(1) by (simp add: bind_def return_def)
  have val3: "\<exists>w. cell h3 val = Some w \<and> m_name w = name \<and> content w = content x"
    using keep [of val] h2(3) by (simp add: x1_def content_def)
  have others: "\<exists>u u'. cell h e = Some u \<and> cell h3 e = Some u' \<and>
                 m_name u' = m_name u \<and> content u' = content u"
    if e: "e \<in> set cs" "e \<noteq> cs ! i" for e
  proof -
    from live [OF e(1)] obtain u where u: "cell h e = Some u" by blast
    have ev: "e \<noteq> val" "e \<noteq> this" using e vcs tcs by auto
    then have u1: "cell h1 e = Some u" using u by (simp add: h1)
    have "e \<noteq> c" using e(2) by (simp add: ci)
    with e(1) have "e \<in> set (pre @ val # post)" using cs by auto
    then have k: "cell h3 e = cell h2 e" using keep [of e] by simp
    consider (p) "m_prev vc = Some e" | (n) "m_next vc = Some e"
      | (o) "Some e \<noteq> m_prev vc" "Some e \<noteq> m_next vc"
      by metis
    then show ?thesis
    proof cases
      case p
      from h2(6) [OF p u1] k u show ?thesis by (simp add: content_def)
    next
      case n
      from h2(7) [OF n u1] k u show ?thesis by (simp add: content_def)
    next
      case o
      with h2(8) [of e] ev k u u1 show ?thesis by simp
    qed
  qed
  have freed: "cell h3 e = None" if "e \<in> set ns" for e
    using that h3(2) by (simp add: released_def)
  have rest: "cell h3 e = cell h e"
    if "e \<notin> set ns" "e \<notin> insert this (insert val (set cs))" for e
    using that h3(2) outside [of e] by (simp add: released_def)
  show ?thesis
  proof (intro exI [of _ h3] conjI ballI allI impI)
    show "Object_linkValue (Suc (i + k)) this name (Some val) h = Some (Inr (Some val), h3)"
      by (rule res)
    show "Object_linkValueSafe (Suc (i + k)) this name (Some val) h = Some (Inr (), h3)"
      using res by (simp add: Object_linkValueSafe_def auto_ptr_guard_def bind_def return_def)
    show "children h3 this (cs[i := val])" by (rule ch3)
    show "\<exists>w. cell h3 val = Some w \<and> m_name w = name \<and> content w = content x" by (rule val3)
  next
    fix e assume "e \<in> set cs" "e \<noteq> cs ! i"
    then show "\<exists>u u'. cell h e = Some u \<and> cell h3 e = Some u' \<and>
                 m_name u' = m_name u \<and> content u' = content u"
      by (rule others)
  next
    fix e assume "e \<in> set ns"
    then show "cell h3 e = None" by (rule freed)
  next
    fix e assume "e \<notin> set ns" "e \<notin> insert this (insert val (set cs))"
    then show "cell h3 e = cell h e" by (rule rest)
  qed
qed

subsection \<open>What parsing changes in the free store\<close>











subsection \<open>A closing bracket where a value or a key is expected\<close>

lemma parse_string_loop_plain:
  "CHR 0x22 \<notin> set ptr \<Longrightarrow> CHR 0x5C \<notin> set ptr \<Longrightarrow> CHR 0x00 \<notin> set ptr \<Longrightarrow>
   parse_string_loop val start ptr = Inr (append_run val start [], [])"
proof (induction ptr)
  case Nil
  show ?case by (subst parse_string_loop.simps) (simp add: deref_def)
next
  case (Cons c cs)
  then have "parse_string_loop val start (c # cs) = parse_string_loop val start cs"
    by (subst parse_string_loop.simps) (auto simp: deref_def skip_def)
  with Cons show ?case by simp
qed

lemma parse_string_after_brace:
  assumes "CHR 0x22 \<notin> set rest" "CHR 0x5C \<notin> set rest" "CHR 0x00 \<notin> set rest"
  shows "parse_string (CHR ''}'' # rest) = Inr (append_run [] rest [], [])"
proof -
  have "deref rest \<noteq> CHR 0x22" using assms(1) by (cases rest) (auto simp: deref_def)
  then show ?thesis
    using assms by (simp add: parse_string_def skip_def parse_string_loop_plain)
qed

lemma parse_value_at_bracket:
  "deref (whitespace ptr) = CHR '']'' \<Longrightarrow>
   parse_value (Suc n) parent name ptr h = Some (Inl (JsonError ''unexpected character''), h)"
  by (simp add: throw_def isDigit_def ord_def)

lemma trailing_comma_array:
  assumes "parse_value (Suc (Suc n)) array [] ptr h = Some (Inr ptr2, h2)"
    and "deref (whitespace ptr2) = CHR '',''"
    and "deref (whitespace (skip (whitespace ptr2) 1)) = CHR '']''"
  shows "parse_array_loop (Suc (Suc (Suc n))) array ptr h =
           Some (Inl (JsonError ''unexpected character''), h2)"
proof -
  have "parse_array_loop (Suc (Suc (Suc n))) array ptr h =
        parse_array_loop (Suc (Suc n)) array (skip (whitespace ptr2) 1) h2"
    using assms(2)
    by (subst parse_array_loop.simps)
       (simp add: bind_def assms(1) del: parse_value.simps parse_array_loop.simps)
  also have "\<dots> = bind (parse_value (Suc n) array [] (skip (whitespace ptr2) 1)) (\<lambda>ptr2.
       if deref (whitespace ptr2) = CHR '','' then
         parse_array_loop (Suc n) array (skip (whitespace ptr2) 1)
       else if deref (whitespace ptr2) = CHR '']'' then
         return (skip (whitespace ptr2) 1)
       else throw (JsonError ''expected ']' or ',' after array element'')) h2"
    by (simp del: parse_value.simps)
  also have "\<dots> = Some (Inl (JsonError ''unexpected character''), h2)"
    using parse_value_at_bracket [OF assms(3), of n array "[]" h2]
    by (simp add: bind_def del: parse_value.simps)
  finally show ?thesis .
qed

lemma trailing_comma_object:
  assumes "parse_string (whitespace ptr) = Inr (valueName, ptr1)"
    and "deref (whitespace ptr1) = CHR '':''"
    and "parse_value m object valueName (skip (whitespace ptr1) 1) h = Some (Inr ptr2, h2)"
    and "deref (whitespace ptr2) = CHR '',''"
    and "whitespace (skip (whitespace ptr2) 1) = CHR ''}'' # rest"
    and "CHR 0x22 \<notin> set rest" "CHR 0x5C \<notin> set rest" "CHR 0x00 \<notin> set rest"
  shows "parse_object_loop (Suc m) object ptr h =
           Some (Inl (JsonError ''expected ':' before object value''), h2)"
proof -
  obtain k where k: "m = Suc k" using assms(3) by (cases m) auto
  have "parse_object_loop (Suc m) object ptr h =
        parse_object_loop m object (skip (whitespace ptr2) 1) h2"
    using assms(1,2,3,4)
    by (subst parse_object_loop.simps)
       (simp add: bind_def del: parse_value.simps parse_object_loop.simps)
  also have "\<dots> = Some (Inl (JsonError ''expected ':' before object value''), h2)"
    unfolding k using assms(5-8)
    by (simp add: parse_string_after_brace deref_def throw_def del: parse_value.simps)
  finally show ?thesis .
qed

section \<open>Properties of the parser\<close>

text \<open>
  C4. Claim: in a \<open>\u\<close> escape a unit in 0xD800..0xDBFF must be followed by \<open>\u\<close> and a
  unit in 0xDC00..0xDFFF, otherwise parsing fails with the message of a missing
  surrogate pair; a pair combines to one code point that is appended in UTF-8.
  The code checks that \<open>\u\<close> follows and reads four hexadecimal digits, but never
  tests the range of the second unit. Evaluated on the string literal
  \<open>"\uD83DA"\<close>, whose second unit is the letter A, \<open>parse_string\<close> returns
  normally with the four bytes F0 9F 91 81 (the code point U+1F441) instead of failing.
\<close>

theorem C4_second_unit_unchecked:
  "parse_string (CHR 0x22 # CHR 0x5C # ''uD83D'' @ CHR 0x5C # ''u0041'' @ [CHR 0x22]) =
     Inr ([CHR 0xF0, CHR 0x9F, CHR 0x91, CHR 0x81], [])"
  by code_simp

text \<open>
  C10. The number token needs no digit before the exponent: \<open>-\<close> and \<open>-e5\<close> are
  read as numbers, \<open>parse\<close> returns normally, and the root's child is a \<open>Number\<close>
  holding negative zero.
\<close>

theorem C10_number_without_digits:
  "parse_number ''-'' = Inr (Double True 0, []) \<and>
   parse_number ''-e5'' = Inr (Double True 0, []) \<and>
   Root_parse 1 0 (Some ''-'') [Some (Value_init [] Root)] =
     Some (Inr (),
       [Some ((Value_init [] Root)\<lparr>m_firstChild := Some 1, m_lastChild := Some 1, m_length := 1\<rparr>),
        Some ((Value_init [] (Number (Double True 0)))\<lparr>m_parent := Some 0\<rparr>)]) \<and>
   Root_parse 1 0 (Some ''-e5'') [Some (Value_init [] Root)] =
     Some (Inr (),
       [Some ((Value_init [] Root)\<lparr>m_firstChild := Some 1, m_lastChild := Some 1, m_length := 1\<rparr>),
        Some ((Value_init [] (Number (Double True 0)))\<lparr>m_parent := Some 0\<rparr>)])"
  by code_simp

text \<open>
  C7, as stated: \<open>{}\<close> and \<open>[]\<close> give an empty object and an empty array, and a
  comma directly before the closing \<open>}\<close> or \<open>]\<close> fails with one of the
  delimiter messages. The second half fails: after the comma the array loop calls
  \<open>parse_value\<close>, whose dispatch rejects \<open>]\<close> with "unexpected character"; the
  object loop calls \<open>parse_string\<close>, which skips the \<open>}\<close> as if it were the opening
  quote, so that the text \<open>{"a":1,}":2}\<close> is even accepted, as an object with the
  members \<open>a\<close> and the empty name.
\<close>

theorem C7_trailing_comma_counterexample:
  "Root_parse 4 0 (Some ''[1,]'') [Some (Value_init [] Root)] =
     Some (Inl (JsonError ''unexpected character''),
       [Some ((Value_init [] Root)\<lparr>m_firstChild := Some 1, m_lastChild := Some 1, m_length := 1\<rparr>),
        Some ((Value_init [] Array)\<lparr>m_parent := Some 0, m_firstChild := Some 2, m_lastChild := Some 2, m_length := 1\<rparr>),
        Some ((Value_init [] (Number (Double False 1)))\<lparr>m_parent := Some 1\<rparr>)]) \<and>
   \<not> ExpectedDelimiter (JsonError ''unexpected character'') \<and>
   Root_parse 4 0 (Some (''{'' @ [CHR 0x22] @ ''a'' @ [CHR 0x22] @ '':1,}'' @ [CHR 0x22] @ '':2}''))
       [Some (Value_init [] Root)] =
     Some (Inr (),
       [Some ((Value_init [] Root)\<lparr>m_firstChild := Some 1, m_lastChild := Some 1, m_length := 1\<rparr>),
        Some ((Value_init [] Object)\<lparr>m_parent := Some 0, m_firstChild := Some 2, m_lastChild := Some 3, m_length := 2\<rparr>),
        Some ((Value_init ''a'' (Number (Double False 1)))\<lparr>m_parent := Some 1, m_next := Some 3\<rparr>),
        Some ((Value_init [] (Number (Double False 2)))\<lparr>m_parent := Some 1, m_prev := Some 2\<rparr>)])"
  by code_simp

text \<open>
  C7, amended: \<open>{}\<close> and \<open>[]\<close> give an empty object and an empty array. In every
  array, an element followed by a comma and \<open>]\<close> makes the loop throw "unexpected
  character". In every object, a member followed by a comma and \<open>}\<close> makes the
  loop throw "expected ':' before object value" when neither a quote nor a
  backslash follows the \<open>}\<close> in the text.
\<close>

theorem C7_empty_containers_and_trailing_comma:
  "Root_parse 2 0 (Some ''{}'') [Some (Value_init [] Root)] =
     Some (Inr (),
       [Some ((Value_init [] Root)\<lparr>m_firstChild := Some 1, m_lastChild := Some 1, m_length := 1\<rparr>),
        Some ((Value_init [] Object)\<lparr>m_parent := Some 0\<rparr>)]) \<and>
   Root_parse 2 0 (Some ''[]'') [Some (Value_init [] Root)] =
     Some (Inr (),
       [Some ((Value_init [] Root)\<lparr>m_firstChild := Some 1, m_lastChild := Some 1, m_length := 1\<rparr>),
        Some ((Value_init [] Array)\<lparr>m_parent := Some 0\<rparr>)]) \<and>
   (parse_value (Suc (Suc n)) array [] ptr h = Some (Inr ptr2, h2) \<and>
    deref (whitespace ptr2) = CHR '','' \<and>
    deref (whitespace (skip (whitespace ptr2) 1)) = CHR '']'' \<longrightarrow>
      parse_array_loop (Suc (Suc (Suc n))) array ptr h =
        Some (Inl (JsonError ''unexpected character''), h2)) \<and>
   (parse_string (whitespace optr) = Inr (valueName, optr1) \<and>
    deref (whitespace optr1) = CHR '':'' \<and>
    parse_value m object valueName (skip (whitespace optr1) 1) g = Some (Inr optr2, g2) \<and>
    deref (whitespace optr2) = CHR '','' \<and>
    whitespace (skip (whitespace optr2) 1) = CHR ''}'' # rest \<and>
    CHR 0x22 \<notin> set rest \<and> CHR 0x5C \<notin> set rest \<and> CHR 0x00 \<notin> set rest \<longrightarrow>
      parse_object_loop (Suc m) object optr g =
        Some (Inl (JsonError ''expected ':' before object value''), g2))"
proof -
  have "Root_parse 2 0 (Some ''{}'') [Some (Value_init [] Root)] =
     Some (Inr (),
       [Some ((Value_init [] Root)\<lparr>m_firstChild := Some 1, m_lastChild := Some 1, m_length := 1\<rparr>),
        Some ((Value_init [] Object)\<lparr>m_parent := Some 0\<rparr>)])"
    by code_simp
  moreover have "Root_parse 2 0 (Some ''[]'') [Some (Value_init [] Root)] =
     Some (Inr (),
       [Some ((Value_init [] Root)\<lparr>m_firstChild := Some 1, m_lastChild := Some 1, m_length := 1\<rparr>),
        Some ((Value_init [] Array)\<lparr>m_parent := Some 0\<rparr>)])"
    by code_simp
  ultimately show ?thesis
    using trailing_comma_array [of n array ptr h ptr2 h2]
      trailing_comma_object [of optr valueName optr1 m object g optr2 g2 rest]
    by blast
qed

theorem C7_empty_containers_and_trailing_comma_witness:
  "parse_array_loop 3 1 ''1,]'' heap_root_with_array =
     Some (Inl (JsonError ''unexpected character''),
       [Some ((Value_init [] Root)\<lparr>m_firstChild := Some 1, m_lastChild := Some 1, m_length := 1\<rparr>),
        Some ((Value_init [] Array)\<lparr>m_parent := Some 0, m_firstChild := Some 2, m_lastChild := Some 2, m_length := 1\<rparr>),
        Some ((Value_init [] (Number (Double False 1)))\<lparr>m_parent := Some 1\<rparr>)]) \<and>
   parse_object_loop 2 1 (CHR 0x22 # ''a'' @ CHR 0x22 # '':1,}'') heap_root_with_object =
     Some (Inl (JsonError ''expected ':' before object value''),
       [Some ((Value_init [] Root)\<lparr>m_firstChild := Some 1, m_lastChild := Some 1, m_length := 1\<rparr>),
        Some ((Value_init [] Object)\<lparr>m_parent := Some 0, m_firstChild := Some 2, m_lastChild := Some 2, m_length := 1\<rparr>),
        Some ((Value_init ''a'' (Number (Double False 1)))\<lparr>m_parent := Some 1\<rparr>)])"
proof -
  have a: "parse_value (Suc (Suc 0)) 1 [] ''1,]'' heap_root_with_array =
      Some (Inr '',]'',
       [Some ((Value_init [] Root)\<lparr>m_firstChild := Some 1, m_lastChild := Some 1, m_length := 1\<rparr>),
        Some ((Value_init [] Array)\<lparr>m_parent := Some 0, m_firstChild := Some 2, m_lastChild := Some 2, m_length := 1\<rparr>),
        Some ((Value_init [] (Number (Double False 1)))\<lparr>m_parent := Some 1\<rparr>)])"
    by code_simp
  have b: "deref (whitespace '',]'') = CHR '',''"
    "deref (whitespace (skip (whitespace '',]'') 1)) = CHR '']''"
    by code_simp+
  have c: "parse_string (whitespace (CHR 0x22 # ''a'' @ CHR 0x22 # '':1,}'')) = Inr (''a'', '':1,}'')"
    by code_simp
  have d: "parse_value 1 1 ''a'' (skip (whitespace '':1,}'') 1) heap_root_with_object =
      Some (Inr '',}'',
       [Some ((Value_init [] Root)\<lparr>m_firstChild := Some 1, m_lastChild := Some 1, m_length := 1\<rparr>),
        Some ((Value_init [] Object)\<lparr>m_parent := Some 0, m_firstChild := Some 2, m_lastChild := Some 2, m_length := 1\<rparr>),
        Some ((Value_init ''a'' (Number (Double False 1)))\<lparr>m_parent := Some 1\<rparr>)])"
    by code_simp
  have e: "deref (whitespace '':1,}'') = CHR '':''" "deref (whitespace '',}'') = CHR '',''"
    "whitespace (skip (whitespace '',}'') 1) = CHR ''}'' # []"
    by code_simp+
  show ?thesis
    using C7_empty_containers_and_trailing_comma
      [of 0 1 "''1,]''" heap_root_with_array "'',]''" _
          "CHR 0x22 # ''a'' @ CHR 0x22 # '':1,}''" "''a''" "'':1,}''" 1 1 heap_root_with_object
          "'',}''" _ "[]"] a b c d e
    by (simp add: numeral_3_eq_3 numeral_2_eq_2)
qed

section \<open>Properties of the root\<close>

text \<open>
  C1. Claim: \<open>parse\<close> on a root that already holds a value disposes of the old
  child and leaves exactly the new value, with \<open>firstChild()\<close> the new node and
  \<open>childCount()\<close> 1. \<open>Root::parse\<close> deletes the old child and clears \<open>m_firstChild\<close>,
  but not \<open>m_lastChild\<close> and \<open>m_length\<close>. On a root filled by an earlier \<open>parse\<close>,
  \<open>insertValueInt\<close> therefore takes the branch for a non-empty list and writes
  through the dangling \<open>m_lastChild\<close>: parsing \<open>1\<close> and then \<open>2\<close> into a new root ends in
  undefined behaviour, with \<open>m_firstChild\<close> null, the old node released and the new
  node not linked.
\<close>

theorem C1_parse_after_parse:
  "bind (Root_parse 2 0 (Some ''1'')) (\<lambda>_. Root_parse 2 0 (Some ''2''))
     [Some (Value_init [] Root)] =
   Some (Inl (Undefined DanglingPointer),
     [Some ((Value_init [] Root)\<lparr>m_firstChild := None, m_lastChild := Some 1, m_length := 1\<rparr>),
      None,
      Some (Value_init [] (Number (Double False 2)))])"
  by code_simp





section \<open>Properties of the containers\<close>

text \<open>
  C3. Claim: linking a node that already has a parent or a sibling into an
  \<open>Object\<close> or an \<open>Array\<close> fails and leaves the container unchanged. Both
  \<open>linkValue\<close> and \<open>linkValueInt\<close> construct the \<open>JsonError\<close> for that case without
  throwing it. With two arrays at addresses 0 and 1 and a number pushed into the
  first (address 2), \<open>linkValueBack\<close> of that number into the second returns the
  node: it is now the first and last child of both arrays. The same holds for
  \<open>Object::linkValue\<close> with an object at address 1.
\<close>

theorem C3_linked_node_is_linked_again:
  "bind (new (Value_init [] Array)) (\<lambda>a.
   bind (new (Value_init [] Array)) (\<lambda>b.
   bind (Array_pushNumber 1 a (Double False 1)) (\<lambda>_.
   bind (Array_getValue a 0) (\<lambda>v.
   Array_linkValueBack 1 b (Some v))))) [] =
   Some (Inr (Some 2),
     [Some ((Value_init [] Array)\<lparr>m_firstChild := Some 2, m_lastChild := Some 2, m_length := 1\<rparr>),
      Some ((Value_init [] Array)\<lparr>m_firstChild := Some 2, m_lastChild := Some 2, m_length := 1\<rparr>),
      Some ((Value_init [] (Number (Double False 1)))\<lparr>m_parent := Some 1\<rparr>)]) \<and>
   bind (new (Value_init [] Array)) (\<lambda>a.
   bind (new (Value_init [] Object)) (\<lambda>b.
   bind (Array_pushNumber 1 a (Double False 1)) (\<lambda>_.
   bind (Array_getValue a 0) (\<lambda>v.
   Object_linkValue 1 b ''k'' (Some v))))) [] =
   Some (Inr (Some 2),
     [Some ((Value_init [] Array)\<lparr>m_firstChild := Some 2, m_lastChild := Some 2, m_length := 1\<rparr>),
      Some ((Value_init [] Object)\<lparr>m_firstChild := Some 2, m_lastChild := Some 2, m_length := 1\<rparr>),
      Some ((Value_init ''k'' (Number (Double False 1)))\<lparr>m_parent := Some 1\<rparr>)])"
  by code_simp

text \<open>
  C9. For an object whose children \<open>cs\<close> do not carry the name, \<open>removeValue(name)\<close>
  returns normally and the free store is what it was. \<open>Array::removeValue\<close> at a
  position from the number of children on throws \<open>JsonNull\<close> "index out of range".
\<close>

theorem C9_remove_absent_name:
  assumes "cell h obj = Some t" and "siblings h (m_firstChild t) cs"
    and "name \<notin> set (map (name_of h) cs)" and "length cs < fuel"
    and "cell h arr = Some t'" and "siblings h (m_firstChild t') ds"
    and "int (length ds) \<le> position"
  shows "Object_removeValue fuel obj name h = Some (Inr (), h) \<and>
         Array_removeValue fuel' arr position h =
           Some (Inl (JsonNull ''index out of range''), h)"
  using assms
  by (simp add: Object_removeValue_def Array_removeValue_def Object_removeValue_loop_absent
      Array_removeValue_loop_scan throw_def)

theorem C9_remove_absent_name_witness:
  "Object_removeValue 2 0 ''b'' heap_object_and_array = Some (Inr (), heap_object_and_array) \<and>
   Array_removeValue 2 1 1 heap_object_and_array =
     Some (Inl (JsonNull ''index out of range''), heap_object_and_array)"
  using C9_remove_absent_name [where obj = 0 and arr = 1 and cs = "[2]" and ds = "[3]"
      and name = "''b''" and fuel = 2 and fuel' = 2 and position = 1
      and h = heap_object_and_array]
  by (simp add: heap_object_and_array_def cell_def name_of_def Value_init_def)

text \<open>
  C8. For an array with children \<open>cs\<close>, \<open>getValue\<close>, \<open>removeValue\<close> and
  \<open>linkValueInt\<close> (insert before, or set) reach the child at position
  \<open>max 0 idx\<close>: a negative index selects the first child. They throw \<open>JsonNull\<close>
  "index out of range" exactly when the array is empty or \<open>idx\<close> is not below
  \<open>childCount()\<close>.
\<close>

theorem C8_negative_index:
  assumes "cell h this = Some t" and "siblings h (m_firstChild t) cs"
    and "m_length t = int (length cs)" and "cell h val = Some x" and "wh \<noteq> 0"
  shows "Array_getValue this idx h =
           (if 0 < childCount h this \<and> idx < childCount h this
            then return (cs ! nat (max 0 idx)) h
            else throw (JsonNull ''index out of range'') h) \<and>
         Array_removeValue fuel this idx h =
           (if 0 < childCount h this \<and> idx < childCount h this
            then bind (removeValueInt this (cs ! nat (max 0 idx))) (delete_Value fuel) h
            else throw (JsonNull ''index out of range'') h) \<and>
         Array_linkValueInt fuel this (Some val) idx wh h =
           (if 0 < childCount h this \<and> idx < childCount h this
            then (if 1 = wh
                  then bind (insertValueBeforeInt this (cs ! nat (max 0 idx)) val)
                         (\<lambda>_. return (Some val)) h
                  else bind (swapValueInt (cs ! nat (max 0 idx)) val) (\<lambda>old.
                       bind (delete_Value fuel old) (\<lambda>_. return (Some val))) h)
            else throw (JsonNull ''index out of range'') h)"
proof -
  have n: "nat (max 0 idx) = nat idx" by simp
  have c: "childCount h this = int (length cs)"
    using assms by (simp add: childCount_def)
  have e: "(0 < int (length cs) \<and> idx < int (length cs)) = (cs \<noteq> [] \<and> idx - 0 < int (length cs))"
    by auto
  show ?thesis
    unfolding n c e
    using assms
    by (simp add: Array_getValue_def Array_removeValue_def Array_linkValueInt_def discard_def
        Array_getValue_loop_scan Array_removeValue_loop_scan Array_linkValueInt_loop_scan
        link_at_def)
qed


theorem C8_negative_index_witness:
  "Array_getValue 0 (- 5) heap_array_of_three = Some (Inr 1, heap_array_of_three) \<and>
   Array_removeValue 2 0 (- 5) heap_array_of_three =
     Some (Inr (),
       [Some ((Value_init [] Array)\<lparr>m_firstChild := Some 2, m_lastChild := Some 3, m_length := 2\<rparr>),
        None,
        Some ((Value_init [] (Number (Double False 2)))\<lparr>m_parent := Some 0, m_next := Some 3\<rparr>),
        Some ((Value_init [] (Number (Double False 3)))\<lparr>m_parent := Some 0, m_prev := Some 2\<rparr>),
        Some (Value_init [] (Number (Double False 9)))]) \<and>
   Array_linkValueInt 2 0 (Some 4) (- 5) 1 heap_array_of_three =
     Some (Inr (Some 4),
       [Some ((Value_init [] Array)\<lparr>m_firstChild := Some 4, m_lastChild := Some 3, m_length := 4\<rparr>),
        Some ((Value_init [] (Number (Double False 1)))\<lparr>m_parent := Some 0, m_prev := Some 4, m_next := Some 2\<rparr>),
        Some ((Value_init [] (Number (Double False 2)))\<lparr>m_parent := Some 0, m_prev := Some 1, m_next := Some 3\<rparr>),
        Some ((Value_init [] (Number (Double False 3)))\<lparr>m_parent := Some 0, m_prev := Some 2\<rparr>),
        Some ((Value_init [] (Number (Double False 9)))\<lparr>m_parent := Some 0, m_next := Some 1\<rparr>)])"
proof -
  have "cell heap_array_of_three 0 =
      Some ((Value_init [] Array)\<lparr>m_firstChild := Some 1, m_lastChild := Some 3, m_length := 3\<rparr>)"
    and "siblings heap_array_of_three (Some 1) [1, 2, 3]"
    and "cell heap_array_of_three 4 = Some (Value_init [] (Number (Double False 9)))"
    by (simp_all add: heap_array_of_three_def cell_def Value_init_def)
  then have "Array_getValue 0 (- 5) heap_array_of_three = return 1 heap_array_of_three \<and>
      Array_removeValue 2 0 (- 5) heap_array_of_three =
        bind (removeValueInt 0 1) (delete_Value 2) heap_array_of_three \<and>
      Array_linkValueInt 2 0 (Some 4) (- 5) 1 heap_array_of_three =
        bind (insertValueBeforeInt 0 1 4) (\<lambda>_. return (Some (4::addr))) heap_array_of_three"
    using C8_negative_index [where h = heap_array_of_three and this = 0 and cs = "[1, 2, 3]"
        and val = 4 and wh = 1 and idx = "- 5" and fuel = 2]
    by (simp add: childCount_def Value_init_def)
  moreover have "return 1 heap_array_of_three = Some (Inr 1, heap_array_of_three)"
    by (simp add: return_def)
  moreover have "bind (removeValueInt 0 1) (delete_Value 2) heap_array_of_three =
     Some (Inr (),
       [Some ((Value_init [] Array)\<lparr>m_firstChild := Some 2, m_lastChild := Some 3, m_length := 2\<rparr>),
        None,
        Some ((Value_init [] (Number (Double False 2)))\<lparr>m_parent := Some 0, m_next := Some 3\<rparr>),
        Some ((Value_init [] (Number (Double False 3)))\<lparr>m_parent := Some 0, m_prev := Some 2\<rparr>),
        Some (Value_init [] (Number (Double False 9)))])"
    by code_simp
  moreover have "bind (insertValueBeforeInt 0 1 4) (\<lambda>_. return (Some (4::addr))) heap_array_of_three =
     Some (Inr (Some 4),
       [Some ((Value_init [] Array)\<lparr>m_firstChild := Some 4, m_lastChild := Some 3, m_length := 4\<rparr>),
        Some ((Value_init [] (Number (Double False 1)))\<lparr>m_parent := Some 0, m_prev := Some 4, m_next := Some 2\<rparr>),
        Some ((Value_init [] (Number (Double False 2)))\<lparr>m_parent := Some 0, m_prev := Some 1, m_next := Some 3\<rparr>),
        Some ((Value_init [] (Number (Double False 3)))\<lparr>m_parent := Some 0, m_prev := Some 2\<rparr>),
        Some ((Value_init [] (Number (Double False 9)))\<lparr>m_parent := Some 0, m_next := Some 1\<rparr>)])"
    by code_simp
  ultimately show ?thesis by (simp add: return_def)
qed

text \<open>
  C6. Let \<open>cs\<close> be the children of an object and \<open>cs ! i\<close> the first of them that
  carries the name. Linking an unlinked live node \<open>val\<close> under that name, by
  \<open>linkValue\<close> or through \<open>linkValueSafe\<close> as the setters do, returns normally; the
  children are then \<open>cs\<close> with \<open>val\<close> at position \<open>i\<close>, \<open>val\<close> carries the name and
  keeps its content, every other child keeps its name and content, and the
  subtree of the old child is released while all other nodes are left alone. In
  particular, parsing \<open>{"a":1,"b":2}\<close> and setting \<open>a\<close> to 3 gives the object with
  \<open>a\<close> = 3 first and \<open>b\<close> = 2 second.
\<close>

theorem C6_replace_in_place:
  assumes "children h this cs"
    and "cell h val = Some x" and "val \<notin> set cs" and "val \<noteq> this"
    and "i < length cs" and "name_of h (cs ! i) = name"
    and "name \<notin> set (map (name_of h) (take i cs))"
    and "nodes_of k h (cs ! i) = Some ns" and "distinct ns"
    and "set ns \<inter> insert this (insert val (set cs)) = {cs ! i}"
  shows "(\<exists>h'. Object_linkValue (Suc (i + k)) this name (Some val) h = Some (Inr (Some val), h') \<and>
           Object_linkValueSafe (Suc (i + k)) this name (Some val) h = Some (Inr (), h') \<and>
           children h' this (cs[i := val]) \<and>
           (\<exists>w. cell h' val = Some w \<and> m_name w = name \<and> content w = content x) \<and>
           (\<forall>c \<in> set cs. c \<noteq> cs ! i \<longrightarrow>
              (\<exists>u u'. cell h c = Some u \<and> cell h' c = Some u' \<and>
                 m_name u' = m_name u \<and> content u' = content u)) \<and>
           (\<forall>e \<in> set ns. cell h' e = None) \<and>
           (\<forall>e. e \<notin> set ns \<longrightarrow> e \<notin> insert this (insert val (set cs)) \<longrightarrow> cell h' e = cell h e)) \<and>
         bind (Root_parse 9 0 (Some (''{'' @ [CHR 0x22] @ ''a'' @ [CHR 0x22] @ '':1,'' @
                 [CHR 0x22] @ ''b'' @ [CHR 0x22] @ '':2}'')))
           (\<lambda>_. Object_setNumber 3 1 ''a'' (Double False 3)) [Some (Value_init [] Root)] =
         Some (Inr (), heap_a_replaced)"
proof
  show "\<exists>h'. Object_linkValue (Suc (i + k)) this name (Some val) h = Some (Inr (Some val), h') \<and>
           Object_linkValueSafe (Suc (i + k)) this name (Some val) h = Some (Inr (), h') \<and>
           children h' this (cs[i := val]) \<and>
           (\<exists>w. cell h' val = Some w \<and> m_name w = name \<and> content w = content x) \<and>
           (\<forall>c \<in> set cs. c \<noteq> cs ! i \<longrightarrow>
              (\<exists>u u'. cell h c = Some u \<and> cell h' c = Some u' \<and>
                 m_name u' = m_name u \<and> content u' = content u)) \<and>
           (\<forall>e \<in> set ns. cell h' e = None) \<and>
           (\<forall>e. e \<notin> set ns \<longrightarrow> e \<notin> insert this (insert val (set cs)) \<longrightarrow> cell h' e = cell h e)"
    using assms by (rule Object_linkValue_replaces)
  show "bind (Root_parse 9 0 (Some (''{'' @ [CHR 0x22] @ ''a'' @ [CHR 0x22] @ '':1,'' @
                 [CHR 0x22] @ ''b'' @ [CHR 0x22] @ '':2}'')))
           (\<lambda>_. Object_setNumber 3 1 ''a'' (Double False 3)) [Some (Value_init [] Root)] =
         Some (Inr (), heap_a_replaced)"
    by code_simp
qed

theorem C6_replace_in_place_witness:
  "Object_linkValue 3 1 ''a'' (Some 4) heap_a_b_and_number = Some (Inr (Some 4), heap_a_replaced) \<and>
   children heap_a_replaced 1 [4, 3] \<and>
   cell heap_a_replaced 2 = None \<and>
   name_of heap_a_replaced 4 = ''a'' \<and> name_of heap_a_replaced 3 = ''b''"
proof -
  have e: "Object_linkValue 3 1 ''a'' (Some 4) heap_a_b_and_number =
      Some (Inr (Some 4), heap_a_replaced)"
    by code_simp
  have "children heap_a_b_and_number 1 [2, 3]"
    and "cell heap_a_b_and_number 4 = Some (Value_init [] (Number (Double False 3)))"
    and "name_of heap_a_b_and_number ([2, 3] ! 0) = ''a''"
    and "nodes_of 2 heap_a_b_and_number ([2, 3] ! 0) = Some [2]"
    by (simp_all add: children_def heap_a_b_and_number_def cell_def name_of_def Value_init_def
        numeral_2_eq_2)
  from C6_replace_in_place [OF this(1,2) _ _ _ this(3) _ this(4)]
  obtain h' where h': "Object_linkValue 3 1 ''a'' (Some 4) heap_a_b_and_number =
        Some (Inr (Some 4), h')"
    "children h' 1 ([2, 3][0 := 4])" "\<forall>e \<in> set [2]. cell h' e = None"
    "\<exists>w. cell h' 4 = Some w \<and> m_name w = ''a'' \<and>
       content w = content (Value_init [] (Number (Double False 3)))"
    by (auto simp: numeral_3_eq_3)
  from h'(1) e have "h' = heap_a_replaced" by simp
  with h'(2,3,4) e show ?thesis
    by (auto simp: name_of_def heap_a_replaced_def cell_def Value_init_def)
qed

section \<open>Properties of the printer\<close>

text \<open>
  C5. Claim: parsing the compact output of \<open>print\<close> gives back the tree, with
  numerically equal numbers, whenever the numbers of the tree are finite.
  \<open>Printer::visit(const Number &)\<close> sets the precision to \<open>digits10 + 1\<close>, which is 16,
  and a \<open>double\<close> needs 17 significant digits to be told from its neighbours. The
  array made by \<open>pushNumber(0.1 + 0.2)\<close> holds the double above the one nearest to
  three tenths; it is printed as \<open>[0.3]\<close>, and that text parses to an array holding
  the double nearest to three tenths, which \<open>==\<close> tells from the first.
\<close>

theorem C5_sixteen_digits_lose_a_double:
  "bind (Root_parse 3 0 (Some ''[]''))
     (\<lambda>_. Array_pushNumber 3 1
        (double_add (double_div (double_of_int 1) (double_of_int 10))
           (double_div (double_of_int 2) (double_of_int 10))))
     [Some (Value_init [] Root)] = Some (Inr (), heap_sum_in_array) \<and>
   Root_print 4 0 [] False heap_sum_in_array = Some (Inr ''[0.3]'', heap_sum_in_array) \<and>
   Root_parse 4 0 (Some ''[0.3]'') [Some (Value_init [] Root)] = Some (Inr (), heap_sum_reparsed) \<and>
   \<not> double_eq (Double False (5404319552844596 / 18014398509481984))
       (Double False (5404319552844595 / 18014398509481984))"
  by code_simp

text \<open>
  One digit more, the \<open>max_digits10\<close> of a \<open>double\<close>, and the same number is printed
  as a text that \<open>parse_number\<close> reads back to it.
\<close>

lemma seventeen_digits_keep_the_sum:
  "format_g (digits10 + 2) (Double False (5404319552844596 / 18014398509481984)) =
     ''0.30000000000000004'' \<and>
   parse_number ''0.30000000000000004'' =
     Inr (Double False (5404319552844596 / 18014398509481984), [])"
  by code_simp

end
